theory Spec2Isabelle
  imports Complex_Main "HOL-Library.Sublist"
begin

section \<open>JavaScript strings\<close>

text \<open>
  A JavaScript string is a sequence of UTF-16 code units. The regular expressions of the
  analyzer test code units (digits, a Cyrillic range, white space), so a string is modelled
  as the list of its code units; \<open>js\<close> turns an ASCII literal into that list.
\<close>

type_synonym jsstring = "nat list"

definition js :: "string \<Rightarrow> jsstring" where
  "js s = map of_char s"

text \<open>The class \<open>\d\<close>: the ten ASCII digits.\<close>

definition is_digit :: "nat \<Rightarrow> bool" where
  "is_digit c = (48 \<le> c \<and> c \<le> 57)"

text \<open>The class \<open>\s\<close> of ECMAScript: white space and line terminators.\<close>

definition is_space :: "nat \<Rightarrow> bool" where
  "is_space c = (c \<in> set [9, 10, 11, 12, 13, 32, 160, 5760, 8232, 8233, 8239, 8287, 12288, 65279]
     \<or> (8192 \<le> c \<and> c \<le> 8202))"

text \<open>The dot of a regular expression matches every code unit but a line terminator.\<close>

definition is_line_terminator :: "nat \<Rightarrow> bool" where
  "is_line_terminator c = (c \<in> set [10, 13, 8232, 8233])"

text \<open>
  Matching under the flag \<open>i\<close> compares canonicalised code units. Every pattern of the
  analyzer is made of ASCII letters, and only the two ASCII cases of a letter canonicalise to
  it, so folding \<open>a..z\<close> to upper case is the whole comparison.
\<close>

definition canon :: "nat \<Rightarrow> nat" where
  "canon c = (if 97 \<le> c \<and> c \<le> 122 then c - 32 else c)"

definition prefix_ci :: "jsstring \<Rightarrow> jsstring \<Rightarrow> bool" where
  "prefix_ci w s = prefix (map canon w) (map canon s)"

definition suffix_ci :: "jsstring \<Rightarrow> jsstring \<Rightarrow> bool" where
  "suffix_ci w s = suffix (map canon w) (map canon s)"

text \<open>\<open>String.prototype.includes\<close>: the argument occurs as a contiguous piece.\<close>

definition str_includes :: "jsstring \<Rightarrow> jsstring \<Rightarrow> bool" where
  "str_includes s w = sublist w s"

text \<open>\<open>s.split('.')\<close>: the pieces between the dots; the empty string gives one empty piece.\<close>

fun split_dot :: "jsstring \<Rightarrow> jsstring list" where
  "split_dot [] = [[]]"
| "split_dot (c # cs) =
     (if c = 46 then [] # split_dot cs
      else (case split_dot cs of [] \<Rightarrow> [[c]] | p # ps \<Rightarrow> (c # p) # ps))"

text \<open>
  A regular expression \<open>p{n,}\<close> searched anywhere in the text: at some position at least
  \<open>n\<close> successive code units are in the class \<open>p\<close>.
\<close>

fun has_run :: "(nat \<Rightarrow> bool) \<Rightarrow> nat \<Rightarrow> jsstring \<Rightarrow> bool" where
  "has_run p n [] = (n = 0)"
| "has_run p n (c # cs) = (n \<le> length (takeWhile p (c # cs)) \<or> has_run p n cs)"

section \<open>Risk levels and the thresholds\<close>

text \<open>\<open>RISK_THRESHOLDS\<close>: scores 0-30 are safe, 31-70 a warning, 71-100 a danger.\<close>

definition RISK_THRESHOLDS_SAFE :: int where
  "RISK_THRESHOLDS_SAFE = 30"

definition RISK_THRESHOLDS_WARNING :: int where
  "RISK_THRESHOLDS_WARNING = 70"

definition determineRiskLevel :: "int \<Rightarrow> jsstring" where
  "determineRiskLevel s =
     (if s \<le> RISK_THRESHOLDS_SAFE then js ''safe''
      else if s \<le> RISK_THRESHOLDS_WARNING then js ''warning''
      else js ''danger'')"

section \<open>URLs\<close>

text \<open>
  The analyzer reads three components of a parsed \<open>URL\<close> object. The class \<open>URL\<close> belongs to
  the runtime, not to the repository: the parser is a parameter of the model, \<open>None\<close> where
  \<open>new URL(url)\<close> throws.
\<close>

record parsedURL =
  protocol :: jsstring
  hostname :: jsstring
  port :: jsstring

type_synonym url_parser = "jsstring \<Rightarrow> parsedURL option"

definition isValidUrl :: "url_parser \<Rightarrow> jsstring \<Rightarrow> bool" where
  "isValidUrl URL target =
     (case URL target of
        None \<Rightarrow> False
      | Some parsed \<Rightarrow> protocol parsed \<in> set [js ''http:'', js ''https:''])"

section \<open>Domain analyzer\<close>

text \<open>
  The issues an analyzer reports are messages for the reader; the model keeps which rule
  produced each one and the number the message quotes.
\<close>

datatype issue =
    DirectIpAccess
  | SuspiciousDomainPattern
  | ExcessiveSubdomains int
  | HttpsNotUsed
  | NonStandardPort jsstring
  | PhishingPhrase
  | PasswordField
  | ExternalFormAction
  | ManyHiddenFields int
  | SuspiciousScriptPattern
  | ContentAnalysisError jsstring
  | ManyExternalDomains nat
  | ExternalScriptLoad nat
  | PageLoadTimeout
  | NetworkError

record signalResult =
  score :: int
  issues :: "issue list"

text \<open>\<open>/^\d+\.\d+\.\d+\.\d+$/\<close>: four non-empty groups of digits, separated by dots.\<close>

definition ipv4_literal :: "jsstring \<Rightarrow> bool" where
  "ipv4_literal domain =
     (length (split_dot domain) = 4 \<and> list_all (\<lambda>p. p \<noteq> [] \<and> list_all is_digit p) (split_dot domain))"

text \<open>
  \<open>SUSPICIOUS_DOMAIN_PATTERNS\<close>, in the order of the table: \<open>/\d{4,}/\<close>, \<open>/-{2,}/\<close>,
  \<open>/\.(tk|ml|ga|cf|gq)$/i\<close> and the Cyrillic range \<open>U+0430..U+044F\<close>, \<open>U+0410..U+042F\<close>.
\<close>

definition long_digits :: "jsstring \<Rightarrow> bool" where
  "long_digits domain = has_run is_digit 4 domain"

definition double_hyphen :: "jsstring \<Rightarrow> bool" where
  "double_hyphen domain = has_run (\<lambda>c. c = 45) 2 domain"

definition free_tld :: "jsstring \<Rightarrow> bool" where
  "free_tld domain =
     list_ex (\<lambda>t. suffix_ci (46 # t) domain) [js ''tk'', js ''ml'', js ''ga'', js ''cf'', js ''gq'']"

definition cyrillic_letter :: "jsstring \<Rightarrow> bool" where
  "cyrillic_letter domain =
     list_ex (\<lambda>c. (1072 \<le> c \<and> c \<le> 1103) \<or> (1040 \<le> c \<and> c \<le> 1071)) domain"

definition SUSPICIOUS_DOMAIN_PATTERNS :: "(jsstring \<Rightarrow> bool) list" where
  "SUSPICIOUS_DOMAIN_PATTERNS = [long_digits, double_hyphen, free_tld, cyrillic_letter]"

text \<open>
  The loops over a pattern table: the first pattern that matches adds its points and its
  issue, and \<open>break\<close> leaves the loop.
\<close>

fun first_match :: "(jsstring \<Rightarrow> bool) list \<Rightarrow> jsstring \<Rightarrow> int \<Rightarrow> issue \<Rightarrow> signalResult \<Rightarrow> signalResult" where
  "first_match [] text pts iss acc = acc"
| "first_match (pattern # rest) text pts iss acc =
     (if pattern text then \<lparr>score = score acc + pts, issues = issues acc @ [iss]\<rparr>
      else first_match rest text pts iss acc)"

text \<open>
  The errors thrown: by \<open>new URL\<close> on a text that is no URL, by \<open>analyzeUrl\<close> on a URL that
  fails validation, and by the browser.
\<close>

datatype jserror =
    InvalidURL
  | InvalidUrlFormat
  | BrowserFailure jsstring

definition analyzeDomain :: "url_parser \<Rightarrow> jsstring \<Rightarrow> jserror + signalResult" where
  "analyzeDomain URL target =
     (case URL target of
        None \<Rightarrow> Inl InvalidURL
      | Some parsed \<Rightarrow>
          let domain = hostname parsed;
              acc = \<lparr>score = 0, issues = []\<rparr>;
              acc = (if ipv4_literal domain
                     then \<lparr>score = score acc + 25, issues = issues acc @ [DirectIpAccess]\<rparr>
                     else acc);
              acc = first_match SUSPICIOUS_DOMAIN_PATTERNS domain 15 SuspiciousDomainPattern acc;
              subdomains = int (length (split_dot domain)) - 2;
              acc = (if subdomains > 3
                     then \<lparr>score = score acc + 10, issues = issues acc @ [ExcessiveSubdomains subdomains]\<rparr>
                     else acc);
              acc = (if protocol parsed \<noteq> js ''https:''
                     then \<lparr>score = score acc + 15, issues = issues acc @ [HttpsNotUsed]\<rparr>
                     else acc);
              acc = (if port parsed \<noteq> [] \<and> port parsed \<notin> set [js ''80'', js ''443'', js '''']
                     then \<lparr>score = score acc + 10, issues = issues acc @ [NonStandardPort (port parsed)]\<rparr>
                     else acc)
          in Inr \<lparr>score = min (score acc) 40, issues = issues acc\<rparr>)"

section \<open>Content analyzer\<close>

text \<open>
  What the three \<open>page.evaluate\<close> calls deliver: the visible text, the summary of the forms
  and the text of the scripts. Each call can throw; \<open>Inl\<close> carries the message of the error.
\<close>

record formInfo =
  formCount :: int
  hasPasswordField :: bool
  hiddenFieldCount :: int
  hasExternalAction :: bool

record pageObservation =
  pageText :: "jsstring + jsstring"
  forms :: "jsstring + formInfo"
  scripts :: "jsstring + jsstring"

text \<open>
  A pattern \<open>/a.*b/i\<close>: the word \<open>a\<close>, then on the same line the word \<open>b\<close>,
  letters compared without case.
\<close>

fun later_on_line :: "jsstring \<Rightarrow> jsstring \<Rightarrow> bool" where
  "later_on_line b [] = prefix_ci b []"
| "later_on_line b (c # cs) =
     (prefix_ci b (c # cs) \<or> (\<not> is_line_terminator c \<and> later_on_line b cs))"

fun two_tokens :: "jsstring \<Rightarrow> jsstring \<Rightarrow> jsstring \<Rightarrow> bool" where
  "two_tokens a b [] = (prefix_ci a [] \<and> later_on_line b (drop (length a) []))"
| "two_tokens a b (c # cs) =
     ((prefix_ci a (c # cs) \<and> later_on_line b (drop (length a) (c # cs))) \<or> two_tokens a b cs)"

definition PHISHING_PATTERNS :: "(jsstring \<Rightarrow> bool) list" where
  "PHISHING_PATTERNS =
     [two_tokens (js ''login'') (js ''verify''),
      two_tokens (js ''account'') (js ''suspend''),
      two_tokens (js ''urgent'') (js ''action''),
      two_tokens (js ''password'') (js ''expire''),
      two_tokens (js ''verify'') (js ''identity''),
      two_tokens (js ''security'') (js ''alert''),
      two_tokens (js ''confirm'') (js ''bank''),
      two_tokens (js ''update'') (js ''payment'')]"

text \<open>
  A pattern \<open>/w\s*t/\<close>, where \<open>t\<close> starts with no white space: the word \<open>w\<close>, any
  white space, then \<open>t\<close>.
\<close>

fun token_then :: "jsstring \<Rightarrow> jsstring \<Rightarrow> jsstring \<Rightarrow> bool" where
  "token_then w t [] = (prefix w [] \<and> prefix t (dropWhile is_space (drop (length w) [])))"
| "token_then w t (c # cs) =
     ((prefix w (c # cs) \<and> prefix t (dropWhile is_space (drop (length w) (c # cs))))
      \<or> token_then w t cs)"

definition MALICIOUS_SCRIPT_PATTERNS :: "(jsstring \<Rightarrow> bool) list" where
  "MALICIOUS_SCRIPT_PATTERNS =
     [token_then (js ''eval'') (js ''(''),
      (\<lambda>s. str_includes s (js ''document.write'')),
      token_then (js ''window.location'') (js ''=''),
      token_then (js ''innerHTML'') (js ''=''),
      (\<lambda>s. str_includes s (js ''fromCharCode'')),
      token_then (js ''unescape'') (js ''(''),
      (\<lambda>s. str_includes s (js ''btoa'') \<or> str_includes s (js ''atob''))]"

text \<open>
  The \<open>catch\<close> of the content analyzer: the error becomes one more issue, and the points
  gathered before it stay.
\<close>

definition content_caught :: "jsstring \<Rightarrow> signalResult \<Rightarrow> signalResult" where
  "content_caught e acc = \<lparr>score = min (score acc) 50, issues = issues acc @ [ContentAnalysisError e]\<rparr>"

definition analyzeContent :: "pageObservation \<Rightarrow> signalResult" where
  "analyzeContent pg =
     (case pageText pg of
        Inl e \<Rightarrow> content_caught e \<lparr>score = 0, issues = []\<rparr>
      | Inr text \<Rightarrow>
          (let acc = first_match PHISHING_PATTERNS text 20 PhishingPhrase \<lparr>score = 0, issues = []\<rparr>
           in (case forms pg of
                 Inl e \<Rightarrow> content_caught e acc
               | Inr info \<Rightarrow>
                   (let acc = (if hasPasswordField info
                               then \<lparr>score = score acc + 10, issues = issues acc @ [PasswordField]\<rparr>
                               else acc);
                        acc = (if hasExternalAction info
                               then \<lparr>score = score acc + 25, issues = issues acc @ [ExternalFormAction]\<rparr>
                               else acc);
                        acc = (if hiddenFieldCount info > 5
                               then \<lparr>score = score acc + 10,
                                     issues = issues acc @ [ManyHiddenFields (hiddenFieldCount info)]\<rparr>
                               else acc)
                    in (case scripts pg of
                          Inl e \<Rightarrow> content_caught e acc
                        | Inr code \<Rightarrow>
                            (let acc = first_match MALICIOUS_SCRIPT_PATTERNS code 15
                                         SuspiciousScriptPattern acc
                             in \<lparr>score = min (score acc) 50, issues = issues acc\<rparr>))))))"

section \<open>Network analyzer\<close>

record networkRequest =
  requestUrl :: jsstring
  resourceType :: jsstring
  originalDomain :: jsstring

record networkResult = signalResult +
  externalDomains :: "jsstring list"
  requestCount :: nat

text \<open>A \<open>Set\<close> keeps each value once, in the order of the first insertion.\<close>

definition set_add :: "jsstring \<Rightarrow> jsstring list \<Rightarrow> jsstring list" where
  "set_add x xs = (if x \<in> set xs then xs else xs @ [x])"

text \<open>
  The loop over the requests. The state is the set \<open>externalDomains\<close> and the list
  \<open>suspiciousRequests\<close>; a request whose URL does not parse throws inside the \<open>try\<close>
  and the empty \<open>catch\<close> goes on with the next one.
\<close>

fun collect_requests :: "url_parser \<Rightarrow> networkRequest list \<Rightarrow> jsstring list \<times> jsstring list
    \<Rightarrow> jsstring list \<times> jsstring list" where
  "collect_requests URL [] st = st"
| "collect_requests URL (req # rest) st =
     (case URL (requestUrl req) of
        None \<Rightarrow> collect_requests URL rest st
      | Some u \<Rightarrow>
          collect_requests URL rest
            (set_add (hostname u) (fst st),
             (if resourceType req = js ''script'' \<and> hostname u \<noteq> originalDomain req
              then snd st @ [hostname u] else snd st)))"

definition analyzeNetworkRequests :: "url_parser \<Rightarrow> networkRequest list \<Rightarrow> networkResult" where
  "analyzeNetworkRequests URL requests =
     (let st = collect_requests URL requests ([], []);
          domains = fst st;
          suspiciousRequests = snd st;
          acc = \<lparr>score = 0, issues = []\<rparr>;
          acc = (if length domains > 10
                 then \<lparr>score = score acc + 10, issues = issues acc @ [ManyExternalDomains (length domains)]\<rparr>
                 else acc);
          acc = (if length suspiciousRequests > 0
                 then \<lparr>score = score acc + 10,
                       issues = issues acc @ [ExternalScriptLoad (length suspiciousRequests)]\<rparr>
                 else acc)
      in \<lparr>score = min (score acc) 20, issues = issues acc,
          externalDomains = domains, requestCount = length requests\<rparr>)"

section \<open>Navigation outcome\<close>

record navigationResult = signalResult +
  error :: "jsstring option"

text \<open>
  The score for a failed navigation, as \<open>analyzeUrl\<close> computes it from the message of the
  error (\<open>None\<close> when the page loaded; an empty message is falsy and counts as none).
\<close>

definition navigationOutcome :: "jsstring option \<Rightarrow> navigationResult" where
  "navigationOutcome navigationError =
     (case navigationError of
        None \<Rightarrow> \<lparr>score = 0, issues = [], error = navigationError\<rparr>
      | Some msg \<Rightarrow>
          if msg = [] then \<lparr>score = 0, issues = [], error = navigationError\<rparr>
          else if str_includes msg (js ''timeout'')
               then \<lparr>score = 10, issues = [PageLoadTimeout], error = navigationError\<rparr>
          else if str_includes msg (js ''net::ERR_'')
               then \<lparr>score = 5, issues = [NetworkError], error = navigationError\<rparr>
          else \<lparr>score = 0, issues = [], error = navigationError\<rparr>)"

section \<open>AI verdicts\<close>

text \<open>
  What \<open>JSON.parse\<close> made of the response of the AI collaborator, seen through the
  properties the fusion reads. The response format asks for an object with these
  properties, but the code takes any value: each property is \<open>None\<close> when the value has
  none of that name (an object of another shape such as \<open>{"foo":1}\<close>, a number, an array).
  \<open>aiRiskScore\<close> is the property \<open>riskScore\<close> as a number: \<open>Some n\<close> for the integer \<open>n\<close>,
  \<open>None\<close> when it is absent or no number (the arithmetic then gives \<open>NaN\<close>). A fractional
  score is outside the model.
\<close>

record finding =
  category :: jsstring
  severity :: jsstring
  description :: jsstring

record aiVerdict =
  aiRiskScore :: "int option"
  aiRiskLevel :: "jsstring option"
  summary :: "jsstring option"
  findings :: "finding list option"
  recommendations :: "jsstring list option"
  confidence :: "int option"
  rawResponse :: "jsstring option"

text \<open>
  The object \<open>analyzeWithAI\<close> returns: \<open>enabled\<close>, a \<open>reason\<close> or an error message (the
  property \<open>error\<close>, here \<open>failure\<close>) when the AI took no part, the \<open>model\<close> and the
  \<open>analysis\<close> when it did. \<open>analysis\<close> is \<open>None\<close> when the property is absent or falsy (the
  response parsed to \<open>null\<close>). The token count \<open>usage\<close> plays no part and is left out.
\<close>

record aiResult =
  enabled :: bool
  reason :: "jsstring option"
  failure :: "jsstring option"
  model :: "jsstring option"
  analysis :: "aiVerdict option"

text \<open>
  \<open>JSON.parse\<close> belongs to the runtime: a parameter of the model. \<open>None\<close> where it throws,
  \<open>Some None\<close> where the text parses to a falsy value, \<open>Some (Some v)\<close> where it parses to
  any other value, of the expected shape or not.
\<close>

type_synonym json_parser = "jsstring \<Rightarrow> aiVerdict option option"

text \<open>The text before and after the first occurrence of a word.\<close>

fun split_at_first :: "jsstring \<Rightarrow> jsstring \<Rightarrow> (jsstring \<times> jsstring) option" where
  "split_at_first w [] = (if w = [] then Some ([], []) else None)"
| "split_at_first w (c # cs) =
     (if prefix w (c # cs) then Some ([], drop (length w) (c # cs))
      else map_option (\<lambda>(before, after). (c # before, after)) (split_at_first w cs))"

text \<open>
  \<open>content.match(/```json\n?([\s\S]*?)\n?```/)\<close>: the whole match and its group. The match
  starts at the first \<open>```json\<close>, skips one line feed if there is one, and the lazy group
  ends before the first closing fence, without the line feed just before that fence.
\<close>

definition fenced_json :: "jsstring \<Rightarrow> (jsstring \<times> jsstring) option" where
  "fenced_json content =
     (case split_at_first (js ''```json'') content of
        None \<Rightarrow> None
      | Some (before, rest) \<Rightarrow>
          (let lf = (case rest of [] \<Rightarrow> [] | c # cs \<Rightarrow> if c = 10 then [c] else []);
               rest = drop (length lf) rest
           in (case split_at_first (js ''```'') rest of
                 None \<Rightarrow> None
               | Some (body, after) \<Rightarrow>
                   Some (js ''```json'' @ lf @ body @ js ''```'',
                         if body \<noteq> [] \<and> last body = 10 then butlast body else body))))"

text \<open>\<open>content.match(/\{[\s\S]*\}/)\<close>: from the first opening brace to the last closing one.\<close>

definition braced_json :: "jsstring \<Rightarrow> jsstring option" where
  "braced_json content =
     (let from_open = dropWhile (\<lambda>c. c \<noteq> 123) content;
          to_close = rev (dropWhile (\<lambda>c. c \<noteq> 125) (rev from_open))
      in if to_close = [] then None else Some to_close)"

text \<open>\<open>jsonStr\<close>: the text handed to \<open>JSON.parse\<close>. An empty group is falsy.\<close>

definition jsonStr :: "jsstring \<Rightarrow> jsstring" where
  "jsonStr content =
     (case fenced_json content of
        Some (whole, grp) \<Rightarrow> if grp \<noteq> [] then grp else whole
      | None \<Rightarrow> (case braced_json content of Some whole \<Rightarrow> whole | None \<Rightarrow> content))"

text \<open>The messages of the synthetic verdict (Korean text, as UTF-16 code units).\<close>

definition UNPARSABLE_DESCRIPTION :: jsstring where
  "UNPARSABLE_DESCRIPTION =
     [0x41, 0x49, 0x20, 0xBD84, 0xC11D, 0x20, 0xACB0, 0xACFC, 0xB97C, 0x20, 0xD30C, 0xC2F1,
      0xD560, 0x20, 0xC218, 0x20, 0xC5C6, 0xC2B5, 0xB2C8, 0xB2E4, 0x2E]"

definition MANUAL_CHECK_RECOMMENDATION :: jsstring where
  "MANUAL_CHECK_RECOMMENDATION =
     [0xC218, 0xB3D9, 0xC73C, 0xB85C, 0x20, 0xD655, 0xC778, 0xC774, 0x20, 0xD544, 0xC694,
      0xD569, 0xB2C8, 0xB2E4, 0x2E]"

definition parseAIResponse :: "json_parser \<Rightarrow> jsstring \<Rightarrow> aiVerdict option" where
  "parseAIResponse JSON_parse content =
     (case JSON_parse (jsonStr content) of
        Some v \<Rightarrow> v
      | None \<Rightarrow>
          Some \<lparr>aiRiskScore = Some 50,
                aiRiskLevel = Some (js ''warning''),
                summary = Some (take 200 content),
                findings = Some [\<lparr>category = js ''suspicious'', severity = js ''medium'',
                                  description = UNPARSABLE_DESCRIPTION\<rparr>],
                recommendations = Some [MANUAL_CHECK_RECOMMENDATION],
                confidence = Some 30,
                rawResponse = Some content\<rparr>)"

text \<open>
  What the call to the AI service met: no API key, a failed request (the message of the
  error thrown on the way), or the content of the first choice of the response
  (\<open>None\<close> when there is none).
\<close>

datatype aiReply =
    RequestFailed jsstring
  | Reply "jsstring option"

record aiEnvironment =
  apiKey :: "jsstring option"
  reply :: aiReply

definition MODEL_NAME :: jsstring where
  "MODEL_NAME = js ''google/gemini-3-flash-preview''"

definition API_KEY_MISSING :: jsstring where
  "API_KEY_MISSING = [0x41, 0x50, 0x49, 0x20, 0xD0A4, 0x20, 0xBBF8, 0xC124, 0xC815]"

definition EMPTY_AI_RESPONSE :: jsstring where
  "EMPTY_AI_RESPONSE =
     [0x41, 0x49, 0x20, 0xC751, 0xB2F5, 0xC774, 0x20, 0xBE44, 0xC5B4, 0xC788, 0xC2B5, 0xB2C8,
      0xB2E4, 0x2E]"

text \<open>An absent string and the empty string are falsy.\<close>

definition falsy_string :: "jsstring option \<Rightarrow> bool" where
  "falsy_string s = (s = None \<or> s = Some [])"

definition analyzeWithAI :: "json_parser \<Rightarrow> aiEnvironment \<Rightarrow> aiResult" where
  "analyzeWithAI JSON_parse env =
     (if falsy_string (apiKey env)
      then \<lparr>enabled = False, reason = Some API_KEY_MISSING, failure = None, model = None,
            analysis = None\<rparr>
      else case reply env of
             RequestFailed e \<Rightarrow>
               \<lparr>enabled = False, reason = None, failure = Some e, model = None, analysis = None\<rparr>
           | Reply None \<Rightarrow>
               \<lparr>enabled = False, reason = None, failure = Some EMPTY_AI_RESPONSE, model = None,
                analysis = None\<rparr>
           | Reply (Some txt) \<Rightarrow>
               if txt = []
               then \<lparr>enabled = False, reason = None, failure = Some EMPTY_AI_RESPONSE, model = None,
                     analysis = None\<rparr>
               else \<lparr>enabled = True, reason = None, failure = None, model = Some MODEL_NAME,
                     analysis = parseAIResponse JSON_parse txt\<rparr>)"

section \<open>Analysis results\<close>

text \<open>
  The \<open>aiAnalysis\<close> property of a result: the object \<open>analyzeWithAI\<close> returned, stored as
  it is, or the summary of a verdict that took part in the fusion.
\<close>

record aiSummary =
  summaryEnabled :: bool
  summaryModel :: "jsstring option"
  summaryScore :: "int option"
  summaryLevel :: "jsstring option"
  summaryText :: "jsstring option"
  summaryFindings :: "finding list option"
  summaryRecommendations :: "jsstring list option"
  summaryConfidence :: "int option"

datatype aiAnnotation =
    StoredAiResult aiResult
  | FusedAiSummary aiSummary

record analysisDetails =
  domain :: signalResult
  content :: signalResult
  network :: networkResult
  navigation :: navigationResult

text \<open>The number in \<open>riskScore\<close>: an integer, or \<open>NaN\<close> after a fusion with a verdict without score.\<close>

datatype jsnumber =
    Num int
  | NotANumber

text \<open>
  One record for the heuristic result and for the final one: the final result is the
  heuristic result with \<open>aiAnalysis\<close> added and, after a fusion, \<open>riskScore\<close> and
  \<open>riskLevel\<close> replaced. \<open>riskLevel = None\<close> is the value \<open>undefined\<close>; \<open>aiAnalysis = None\<close>
  is a result without that property.
\<close>

record analysisResult =
  url :: jsstring
  riskScore :: jsnumber
  riskLevel :: "jsstring option"
  screenshot :: "jsstring option"
  details :: analysisDetails
  analysisTime :: int
  analyzedAt :: jsstring
  aiAnalysis :: "aiAnnotation option"

section \<open>Fusion of the heuristic result and the AI verdict\<close>

text \<open>
  \<open>Math.round\<close> rounds to the nearest integer, a half upwards. The code computes
  \<open>h * 0.4 + ai * 0.6\<close> in double precision; the model computes it exactly, with the weights
  4/10 and 6/10. For integer scores from 0 to 100, the range of the specification, the
  exact sum is a multiple of 1/5, at least 1/10 away from every half, and the error of the
  double is far smaller: both round to the same integer. For scores far outside that range
  the double can round differently, and the properties of the fused score are stated for
  scores from 0 to 100 only.
\<close>

definition Math_round :: "rat \<Rightarrow> int" where
  "Math_round x = \<lfloor>x + 1 / 2\<rfloor>"

text \<open>
  The values the level computation meets: \<open>undefined\<close>, a number, \<open>NaN\<close>, or a member every
  object inherits from \<open>Object.prototype\<close> (a function or an object, named by its key).
\<close>

datatype jsvalue =
    Undefined
  | Number int
  | NaN
  | Inherited jsstring

definition Object_prototype :: "jsstring list" where
  "Object_prototype =
     [js ''constructor'', js ''__proto__'', js ''hasOwnProperty'', js ''isPrototypeOf'',
      js ''propertyIsEnumerable'', js ''toLocaleString'', js ''toString'', js ''valueOf'',
      js ''__defineGetter__'', js ''__defineSetter__'', js ''__lookupGetter__'',
      js ''__lookupSetter__'']"

text \<open>The object literal \<open>{ safe: 0, warning: 1, danger: 2 }\<close>, its own properties in order.\<close>

definition riskLevels :: "(jsstring \<times> int) list" where
  "riskLevels = [(js ''safe'', 0), (js ''warning'', 1), (js ''danger'', 2)]"

text \<open>
  \<open>obj[key]\<close> on an object literal: an own property, else a member inherited from
  \<open>Object.prototype\<close>, else \<open>undefined\<close>. The key \<open>undefined\<close> is looked up as the string
  \<open>"undefined"\<close>.
\<close>

definition property_key :: "jsstring option \<Rightarrow> jsstring" where
  "property_key k = (case k of None \<Rightarrow> js ''undefined'' | Some s \<Rightarrow> s)"

definition get_property :: "(jsstring \<times> int) list \<Rightarrow> jsstring \<Rightarrow> jsvalue" where
  "get_property obj k =
     (case map_of obj k of
        Some n \<Rightarrow> Number n
      | None \<Rightarrow> if k \<in> set Object_prototype then Inherited k else Undefined)"

text \<open>\<open>v || 0\<close>: \<open>undefined\<close>, 0 and \<open>NaN\<close> are falsy; functions and objects are truthy.\<close>

definition or_zero :: "jsvalue \<Rightarrow> jsvalue" where
  "or_zero v =
     (case v of
        Undefined \<Rightarrow> Number 0
      | Number n \<Rightarrow> if n = 0 then Number 0 else Number n
      | NaN \<Rightarrow> Number 0
      | Inherited k \<Rightarrow> Inherited k)"

text \<open>
  \<open>Math.max\<close> converts its arguments to numbers: a function or a plain object converts to
  \<open>NaN\<close>, and the maximum with \<open>NaN\<close> is \<open>NaN\<close>.
\<close>

definition Math_max :: "jsvalue \<Rightarrow> jsvalue \<Rightarrow> jsvalue" where
  "Math_max a b =
     (case (a, b) of
        (Number x, Number y) \<Rightarrow> Number (max x y)
      | _ \<Rightarrow> NaN)"

text \<open>\<open>a === b\<close>: \<open>NaN\<close> is equal to nothing.\<close>

definition strict_equal :: "jsvalue \<Rightarrow> jsvalue \<Rightarrow> bool" where
  "strict_equal a b = (a = b \<and> a \<noteq> NaN)"

definition mergeAnalysisResults :: "analysisResult \<Rightarrow> aiResult \<Rightarrow> analysisResult" where
  "mergeAnalysisResults heuristicResult aiRes =
     (case (if enabled aiRes then analysis aiRes else None) of
        None \<Rightarrow> heuristicResult\<lparr>aiAnalysis := Some (StoredAiResult aiRes)\<rparr>
      | Some ai \<Rightarrow>
          (let combinedScore =
                 (case (riskScore heuristicResult, aiRiskScore ai) of
                    (Num h, Some a) \<Rightarrow> Num (Math_round (of_int h * (4 / 10) + of_int a * (6 / 10)))
                  | _ \<Rightarrow> NotANumber);
               heuristicLevel = or_zero (get_property riskLevels (property_key (riskLevel heuristicResult)));
               aiLevel = or_zero (get_property riskLevels (property_key (aiRiskLevel ai)));
               finalLevel = Math_max heuristicLevel aiLevel;
               combinedRiskLevel =
                 find (\<lambda>k. strict_equal (get_property riskLevels k) finalLevel) (map fst riskLevels)
           in heuristicResult
                \<lparr>riskScore := combinedScore,
                 riskLevel := combinedRiskLevel,
                 aiAnalysis := Some (FusedAiSummary
                   \<lparr>summaryEnabled = True,
                    summaryModel = model aiRes,
                    summaryScore = aiRiskScore ai,
                    summaryLevel = aiRiskLevel ai,
                    summaryText = summary ai,
                    summaryFindings = findings ai,
                    summaryRecommendations = recommendations ai,
                    summaryConfidence = confidence ai\<rparr>)\<rparr>))"

section \<open>Full analysis\<close>

text \<open>
  What the browser sandbox delivers for one analysis. \<open>browserFailure\<close> is the error of a
  step that \<open>analyzeUrl\<close> does not catch (starting the browser, opening the page);
  \<open>pageInfoFailure\<close> is an error thrown while the request to the AI is put together, inside
  the \<open>try\<close> around the AI analysis.
\<close>

record observation =
  browserFailure :: "jsstring option"
  page :: pageObservation
  networkRequests :: "networkRequest list"
  navigationError :: "jsstring option"
  capturedScreenshot :: "jsstring option"
  elapsed :: int
  finishedAt :: jsstring
  pageInfoFailure :: "jsstring option"

text \<open>The option \<open>useAI\<close>: \<open>None\<close> when the caller did not set it.\<close>

record analysisOptions =
  useAI :: "bool option"

text \<open>The first part of \<open>analyzeUrl\<close>, up to the object \<open>heuristicResult\<close>.\<close>

definition heuristicAnalysis :: "url_parser \<Rightarrow> jsstring \<Rightarrow> observation \<Rightarrow> jserror + analysisResult" where
  "heuristicAnalysis URL target obs =
     (if \<not> isValidUrl URL target then Inl InvalidUrlFormat
      else case browserFailure obs of
             Some e \<Rightarrow> Inl (BrowserFailure e)
           | None \<Rightarrow>
               (case analyzeDomain URL target of
                  Inl e \<Rightarrow> Inl e
                | Inr domainAnalysis \<Rightarrow>
                    (let contentAnalysis = analyzeContent (page obs);
                         networkAnalysis = analyzeNetworkRequests URL (networkRequests obs);
                         nav = navigationOutcome (navigationError obs);
                         totalScore = min (score domainAnalysis + score contentAnalysis
                                           + score networkAnalysis + score nav) 100
                     in Inr \<lparr>url = target,
                             riskScore = Num totalScore,
                             riskLevel = Some (determineRiskLevel totalScore),
                             screenshot = capturedScreenshot obs,
                             details = \<lparr>domain = domainAnalysis, content = contentAnalysis,
                                        network = networkAnalysis, navigation = nav\<rparr>,
                             analysisTime = elapsed obs,
                             analyzedAt = finishedAt obs,
                             aiAnalysis = None\<rparr>)))"

text \<open>
  \<open>analyzeUrl\<close>: the heuristic result, then the AI analysis unless \<open>useAI\<close> is \<open>false\<close>.
  The fusion runs only when the AI result is enabled; an error inside the \<open>try\<close> is logged and
  the heuristic result returned.
\<close>

definition analyzeUrl :: "url_parser \<Rightarrow> json_parser \<Rightarrow> jsstring \<Rightarrow> analysisOptions \<Rightarrow> observation
    \<Rightarrow> aiEnvironment \<Rightarrow> jserror + analysisResult" where
  "analyzeUrl URL JSON_parse target opts obs env =
     (case heuristicAnalysis URL target obs of
        Inl e \<Rightarrow> Inl e
      | Inr heuristicResult \<Rightarrow>
          if useAI opts \<noteq> Some False
          then (case pageInfoFailure obs of
                  Some e \<Rightarrow> Inr heuristicResult
                | None \<Rightarrow>
                    (let aiRes = analyzeWithAI JSON_parse env
                     in if enabled aiRes then Inr (mergeAnalysisResults heuristicResult aiRes)
                        else Inr heuristicResult))
          else Inr heuristicResult)"

section \<open>Quick check and batch check\<close>

datatype quickMessage =
    InvalidUrlMessage
  | DomainIssuesFound
  | DomainCheckPassed

text \<open>
  The result of \<open>quickCheck\<close>. For an invalid URL the object has no \<open>issues\<close> property
  (\<open>quickIssues = None\<close>).
\<close>

record quickCheckResult =
  quickUrl :: jsstring
  valid :: bool
  quickScore :: int
  quickLevel :: jsstring
  quickIssues :: "issue list option"
  message :: quickMessage

definition quickCheck :: "url_parser \<Rightarrow> jsstring \<Rightarrow> jserror + quickCheckResult" where
  "quickCheck URL target =
     (if \<not> isValidUrl URL target
      then Inr \<lparr>quickUrl = target, valid = False, quickScore = 0, quickLevel = js ''unknown'',
                quickIssues = None, message = InvalidUrlMessage\<rparr>
      else case analyzeDomain URL target of
             Inl e \<Rightarrow> Inl e
           | Inr domainAnalysis \<Rightarrow>
               Inr \<lparr>quickUrl = target, valid = True, quickScore = score domainAnalysis,
                    quickLevel = determineRiskLevel (score domainAnalysis),
                    quickIssues = Some (issues domainAnalysis),
                    message = (if length (issues domainAnalysis) > 0 then DomainIssuesFound
                               else DomainCheckPassed)\<rparr>)"

text \<open>\<open>urls.map(f)\<close> where \<open>f\<close> may throw: the first error ends the map.\<close>

fun map_throwing :: "('a \<Rightarrow> 'e + 'b) \<Rightarrow> 'a list \<Rightarrow> 'e + 'b list" where
  "map_throwing f [] = Inr []"
| "map_throwing f (x # xs) =
     (case f x of
        Inl e \<Rightarrow> Inl e
      | Inr y \<Rightarrow> (case map_throwing f xs of Inl e \<Rightarrow> Inl e | Inr ys \<Rightarrow> Inr (y # ys)))"

record batchSummary =
  safe :: nat
  warning :: nat
  danger :: nat
  invalid :: nat

record batchData =
  total :: nat
  results :: "quickCheckResult list"
  batchSummary :: batchSummary

text \<open>The body of the \<open>try\<close> of the batch route: quick check of each URL, then the tally.\<close>

definition batchCheck :: "url_parser \<Rightarrow> jsstring list \<Rightarrow> jserror + batchData" where
  "batchCheck URL urls =
     (case map_throwing (quickCheck URL) urls of
        Inl e \<Rightarrow> Inl e
      | Inr rs \<Rightarrow>
          Inr \<lparr>total = length urls,
               results = rs,
               batchSummary =
                 \<lparr>safe = length (filter (\<lambda>r. quickLevel r = js ''safe'') rs),
                  warning = length (filter (\<lambda>r. quickLevel r = js ''warning'') rs),
                  danger = length (filter (\<lambda>r. quickLevel r = js ''danger'') rs),
                  invalid = length (filter (\<lambda>r. \<not> valid r) rs)\<rparr>\<rparr>)"

text \<open>
  The route \<open>POST /api/batch-check\<close>. The body carries an array of URLs or not
  (\<open>None\<close>); the answer is an error code or the data of a successful response.
\<close>

datatype batchError =
    MISSING_URLS
  | TOO_MANY_URLS
  | BATCH_CHECK_ERROR

definition post_batch_check :: "url_parser \<Rightarrow> jsstring list option \<Rightarrow> batchError + batchData" where
  "post_batch_check URL body =
     (case body of
        None \<Rightarrow> Inl MISSING_URLS
      | Some urls \<Rightarrow>
          if length urls > 10 then Inl TOO_MANY_URLS
          else (case batchCheck URL urls of
                  Inl e \<Rightarrow> Inl BATCH_CHECK_ERROR
                | Inr d \<Rightarrow> Inr d))"

section \<open>The specification's notions\<close>

text \<open>The closed set of levels and the order \<open>safe < warning < danger\<close> of the specification.\<close>

definition LEVELS :: "jsstring list" where
  "LEVELS = [js ''safe'', js ''warning'', js ''danger'']"

definition severity_rank :: "jsstring \<Rightarrow> nat" where
  "severity_rank l =
     (if l = js ''safe'' then 0 else if l = js ''warning'' then 1
      else if l = js ''danger'' then 2 else 3)"

definition more_severe :: "jsstring \<Rightarrow> jsstring \<Rightarrow> jsstring" where
  "more_severe a b = (if severity_rank a \<le> severity_rank b then b else a)"

text \<open>
  The AI takes part in an analysis when it is asked, the request can be put together, and
  the result of \<open>analyzeWithAI\<close> is enabled and carries a verdict.
\<close>

definition ai_took_part :: "json_parser \<Rightarrow> analysisOptions \<Rightarrow> observation \<Rightarrow> aiEnvironment \<Rightarrow> bool" where
  "ai_took_part JSON_parse opts obs env =
     (useAI opts \<noteq> Some False \<and> pageInfoFailure obs = None
      \<and> enabled (analyzeWithAI JSON_parse env) \<and> analysis (analyzeWithAI JSON_parse env) \<noteq> None)"

text \<open>
  The rules of the Domain Analyzer in the words of the specification. \<open>consecutive p n s\<close>:
  somewhere in \<open>s\<close> stand \<open>n\<close> code units in a row that are all in the class \<open>p\<close>.
\<close>

definition consecutive :: "(nat \<Rightarrow> bool) \<Rightarrow> nat \<Rightarrow> jsstring \<Rightarrow> bool" where
  "consecutive p n s = (\<exists>u w v. s = u @ w @ v \<and> length w = n \<and> list_all p w)"

text \<open>A bare IPv4 literal: four non-empty groups of digits with dots between them.\<close>

definition dotted_quad :: "jsstring \<Rightarrow> bool" where
  "dotted_quad h =
     (\<exists>a b c d. h = a @ [46] @ b @ [46] @ c @ [46] @ d
        \<and> (\<forall>g \<in> {a, b, c, d}. g \<noteq> [] \<and> list_all is_digit g))"

text \<open>The host ends in a dot and one of the free top-level domains, in any case of letters.\<close>

definition free_tld_ending :: "jsstring \<Rightarrow> bool" where
  "free_tld_ending h =
     (\<exists>t \<in> {js ''tk'', js ''ml'', js ''ga'', js ''cf'', js ''gq''}.
        \<exists>u w. h = u @ [46] @ w \<and> map canon w = map canon t)"

text \<open>A Cyrillic letter of the range the pattern tests, \<open>U+0410\<close> to \<open>U+044F\<close>.\<close>

definition has_cyrillic :: "jsstring \<Rightarrow> bool" where
  "has_cyrillic h = (\<exists>c \<in> set h. 1040 \<le> c \<and> c \<le> 1103)"

definition suspicious_host :: "jsstring \<Rightarrow> bool" where
  "suspicious_host h =
     (consecutive is_digit 4 h \<or> consecutive (\<lambda>c. c = 45) 2 h \<or> free_tld_ending h \<or> has_cyrillic h)"

text \<open>The number of labels of a host is the number of its dots plus one.\<close>

definition label_count :: "jsstring \<Rightarrow> nat" where
  "label_count h = Suc (count_list h 46)"

definition domain_rule_points :: "parsedURL \<Rightarrow> int" where
  "domain_rule_points p =
     (if dotted_quad (hostname p) then 25 else 0)
     + (if suspicious_host (hostname p) then 15 else 0)
     + (if int (label_count (hostname p)) - 2 > 3 then 10 else 0)
     + (if protocol p \<noteq> js ''https:'' then 15 else 0)
     + (if port p \<noteq> [] \<and> port p \<noteq> js ''80'' \<and> port p \<noteq> js ''443'' then 10 else 0)"

text \<open>A request record whose URL the class \<open>URL\<close> accepts.\<close>

definition parses :: "url_parser \<Rightarrow> networkRequest \<Rightarrow> bool" where
  "parses URL r = (URL (requestUrl r) \<noteq> None)"

section \<open>Example inputs\<close>

text \<open>
  The URLs of the examples, with the components the class \<open>URL\<close> gives for them; every
  other text is taken not to parse.
\<close>

definition example_URL :: url_parser where
  "example_URL =
     map_of
       [(js ''https://192.0.2.10/login'',
           \<lparr>protocol = js ''https:'', hostname = js ''192.0.2.10'', port = []\<rparr>),
        (js ''http://free-gift.tk:8080/'',
           \<lparr>protocol = js ''http:'', hostname = js ''free-gift.tk'', port = js ''8080''\<rparr>),
        (js ''https://example.com/'',
           \<lparr>protocol = js ''https:'', hostname = js ''example.com'', port = []\<rparr>),
        (js ''https://cdn.example.net/app.js'',
           \<lparr>protocol = js ''https:'', hostname = js ''cdn.example.net'', port = []\<rparr>),
        (js ''http://192.0.2.10:8080/'',
           \<lparr>protocol = js ''http:'', hostname = js ''192.0.2.10'', port = js ''8080''\<rparr>)]"

definition example_details :: analysisDetails where
  "example_details =
     \<lparr>domain = \<lparr>score = 0, issues = []\<rparr>,
      content = \<lparr>score = 10, issues = [PasswordField]\<rparr>,
      network = \<lparr>score = 10, issues = [ExternalScriptLoad 1],
                 externalDomains = [js ''example.com'', js ''cdn.example.net''], requestCount = 2\<rparr>,
      navigation = \<lparr>score = 0, issues = [], error = None\<rparr>\<rparr>"

text \<open>A heuristic result of score 20, level safe, and an AI verdict of score 90, level danger.\<close>

definition example_heuristic :: analysisResult where
  "example_heuristic =
     \<lparr>url = js ''https://example.com/'', riskScore = Num 20, riskLevel = Some (js ''safe''),
      screenshot = None, details = example_details, analysisTime = 3500,
      analyzedAt = js ''2026-01-01T00:00:00.000Z'', aiAnalysis = None\<rparr>"

definition example_verdict :: aiVerdict where
  "example_verdict =
     \<lparr>aiRiskScore = Some 90, aiRiskLevel = Some (js ''danger''),
      summary = Some (js ''phishing page''),
      findings = Some [\<lparr>category = js ''phishing'', severity = js ''high'',
                        description = js ''imitates a bank''\<rparr>],
      recommendations = Some [js ''do not enter credentials''], confidence = Some 85,
      rawResponse = None\<rparr>"

definition example_ai :: aiResult where
  "example_ai =
     \<lparr>enabled = True, reason = None, failure = None, model = Some MODEL_NAME,
      analysis = Some example_verdict\<rparr>"

text \<open>
  A page with a phishing phrase and a password field, three requests (one of them with a
  URL that does not parse, one a script from another host), and a navigation that succeeded.
\<close>

definition example_page :: pageObservation where
  "example_page =
     \<lparr>pageText = Inr (js ''Please login to verify your account''),
      forms = Inr \<lparr>formCount = 1, hasPasswordField = True, hiddenFieldCount = 0,
                   hasExternalAction = False\<rparr>,
      scripts = Inr (js ''console.log(1)'')\<rparr>"

definition example_requests :: "networkRequest list" where
  "example_requests =
     [\<lparr>requestUrl = js ''https://example.com/'', resourceType = js ''document'',
       originalDomain = js ''example.com''\<rparr>,
      \<lparr>requestUrl = js ''//no-scheme/tracker.js'', resourceType = js ''script'',
       originalDomain = js ''example.com''\<rparr>,
      \<lparr>requestUrl = js ''https://cdn.example.net/app.js'', resourceType = js ''script'',
       originalDomain = js ''example.com''\<rparr>]"

definition example_observation :: observation where
  "example_observation =
     \<lparr>browserFailure = None, page = example_page, networkRequests = example_requests,
      navigationError = None, capturedScreenshot = None, elapsed = 3500,
      finishedAt = js ''2026-01-01T00:00:00.000Z'', pageInfoFailure = None\<rparr>"

text \<open>An object without any of the properties of a verdict, as \<open>{"foo":1}\<close> parses to.\<close>

definition example_foo_object :: aiVerdict where
  "example_foo_object =
     \<lparr>aiRiskScore = None, aiRiskLevel = None, summary = None, findings = None,
      recommendations = None, confidence = None, rawResponse = None\<rparr>"

text \<open>
  The JSON texts of the examples with what \<open>JSON.parse\<close> makes of them: a verdict, an
  object of another shape, and \<open>null\<close>; every other text is taken to be no JSON.
\<close>

definition example_JSON :: json_parser where
  \<open>example_JSON =
     map_of
       [(js ''{"riskScore": 90, "riskLevel": "danger", "confidence": 85}'',
           Some (example_verdict\<lparr>summary := None, findings := None, recommendations := None\<rparr>)),
        (js ''{"foo":1}'', Some example_foo_object),
        (js ''null'', None)]\<close>



text \<open>A deployment without API key, and one whose AI service answers \<open>null\<close>.\<close>

definition example_no_key :: aiEnvironment where
  "example_no_key = \<lparr>apiKey = None, reply = RequestFailed []\<rparr>"

definition example_null_reply :: aiEnvironment where
  "example_null_reply = \<lparr>apiKey = Some (js ''sk-key''), reply = Reply (Some (js ''null''))\<rparr>"

definition example_options :: analysisOptions where
  "example_options = \<lparr>useAI = None\<rparr>"

text \<open>A batch of three URLs; the second is no URL.\<close>

definition example_batch :: "jsstring list" where
  "example_batch = [js ''https://192.0.2.10/login'', js ''not a url'', js ''http://free-gift.tk:8080/'']"



section \<open>Properties\<close>

subsection \<open>Fusion\<close>

lemma Math_round_weighted:
  "Math_round (of_int h * (4 / 10) + of_int a * (6 / 10)) = (4 * h + 6 * a + 5) div 10"
proof -
  have "of_int h * (4 / 10) + of_int a * (6 / 10) + 1 / 2
          = (of_int (4 * h + 6 * a + 5) :: rat) / of_int 10"
    by (simp add: field_simps)
  then show ?thesis
    unfolding Math_round_def by (simp only: floor_divide_of_int_eq)
qed

text \<open>
  The rounded value is the integer nearest to the weighted sum, a half rounded upwards, and
  it stays between 0 and 100 when both scores do.
\<close>

lemma weighted_nearest:
  fixes h a :: int
  defines "n \<equiv> (4 * h + 6 * a + 5) div 10"
  shows "(of_int n :: rat) \<le> of_int h * (4 / 10) + of_int a * (6 / 10) + 1 / 2"
    and "of_int h * (4 / 10) + of_int a * (6 / 10) + 1 / 2 < (of_int n :: rat) + 1"
proof -
  define q :: rat where "q = of_int h * (4 / 10) + of_int a * (6 / 10) + 1 / 2"
  have "Math_round (of_int h * (4 / 10) + of_int a * (6 / 10)) = \<lfloor>q\<rfloor>"
    unfolding Math_round_def q_def ..
  then have n: "n = \<lfloor>q\<rfloor>"
    unfolding n_def by (simp only: Math_round_weighted)
  have "(of_int n :: rat) \<le> q" and "q < (of_int n :: rat) + 1"
    unfolding n by linarith+
  then show "(of_int n :: rat) \<le> of_int h * (4 / 10) + of_int a * (6 / 10) + 1 / 2"
    and "of_int h * (4 / 10) + of_int a * (6 / 10) + 1 / 2 < (of_int n :: rat) + 1"
    unfolding q_def .
qed

lemma weighted_range:
  fixes h a :: int
  assumes "0 \<le> h" "h \<le> 100" "0 \<le> a" "a \<le> 100"
  shows "0 \<le> (4 * h + 6 * a + 5) div 10" and "(4 * h + 6 * a + 5) div 10 \<le> 100"
  using assms by simp_all

lemma level_lookup:
  "or_zero (get_property riskLevels (js ''safe'')) = Number 0"
  "or_zero (get_property riskLevels (js ''warning'')) = Number 1"
  "or_zero (get_property riskLevels (js ''danger'')) = Number 2"
  by (simp_all add: or_zero_def get_property_def riskLevels_def js_def)

lemma level_find:
  "find (\<lambda>k. strict_equal (get_property riskLevels k) (Number 0)) (map fst riskLevels)
     = Some (js ''safe'')"
  "find (\<lambda>k. strict_equal (get_property riskLevels k) (Number 1)) (map fst riskLevels)
     = Some (js ''warning'')"
  "find (\<lambda>k. strict_equal (get_property riskLevels k) (Number 2)) (map fst riskLevels)
     = Some (js ''danger'')"
  by (simp_all add: strict_equal_def get_property_def riskLevels_def js_def)

lemma merged_level:
  assumes "enabled a" and "analysis a = Some v"
  shows "riskLevel (mergeAnalysisResults h a)
      = find (\<lambda>k. strict_equal (get_property riskLevels k)
                 (Math_max (or_zero (get_property riskLevels (property_key (riskLevel h))))
                           (or_zero (get_property riskLevels (property_key (aiRiskLevel v))))))
          (map fst riskLevels)"
  using assms by (simp add: mergeAnalysisResults_def Let_def)

lemma merged_level_more_severe:
  assumes "enabled a" and "analysis a = Some v"
    and "riskLevel h = Some hl" and "aiRiskLevel v = Some al"
    and "hl \<in> set LEVELS" and "al \<in> set LEVELS"
  shows "riskLevel (mergeAnalysisResults h a) = Some (more_severe hl al)"
proof -
  have hl: "hl = js ''safe'' \<or> hl = js ''warning'' \<or> hl = js ''danger''"
    using assms(5) by (simp add: LEVELS_def)
  have al: "al = js ''safe'' \<or> al = js ''warning'' \<or> al = js ''danger''"
    using assms(6) by (simp add: LEVELS_def)
  have level: "riskLevel (mergeAnalysisResults h a)
      = find (\<lambda>k. strict_equal (get_property riskLevels k)
                 (Math_max (or_zero (get_property riskLevels hl)) (or_zero (get_property riskLevels al))))
          (map fst riskLevels)"
    using assms(1-4) by (simp add: merged_level property_key_def)
  have "find (\<lambda>k. strict_equal (get_property riskLevels k)
                 (Math_max (or_zero (get_property riskLevels hl)) (or_zero (get_property riskLevels al))))
          (map fst riskLevels) = Some (more_severe hl al)"
    using hl al
    by (elim disjE; simp only: level_lookup Math_max_def prod.case jsvalue.case max_def;
        simp add: level_find more_severe_def severity_rank_def js_def)
  with level show ?thesis by simp
qed

lemma merged_score:
  assumes "enabled a" and "analysis a = Some v"
    and "riskScore h = Num x" and "aiRiskScore v = Some y"
  shows "riskScore (mergeAnalysisResults h a) = Num ((4 * x + 6 * y + 5) div 10)"
proof -
  have "riskScore (mergeAnalysisResults h a)
          = Num (Math_round (of_int x * (4 / 10) + of_int y * (6 / 10)))"
    using assms by (simp add: mergeAnalysisResults_def Let_def)
  then show ?thesis
    by (simp only: Math_round_weighted)
qed


text \<open>
  C1. When an enabled AI result carries a verdict, both scores are integers from 0 to 100
  and both levels are in the closed set, the fused score is
  \<open>round(heuristicScore * 0.4 + aiScore * 0.6)\<close>: the integer \<open>n\<close> with
  \<open>n \<le> heuristicScore * 0.4 + aiScore * 0.6 + 1/2 < n + 1\<close>, again from 0 to 100. The fused
  level is the more severe of the two levels under \<open>safe < warning < danger\<close>; it is not
  derived from the fused score.
\<close>

theorem fusion_score_and_level:
  assumes "enabled a" and "analysis a = Some v"
    and "riskScore h = Num x" and "0 \<le> x" and "x \<le> 100"
    and "aiRiskScore v = Some y" and "0 \<le> y" and "y \<le> 100"
    and "riskLevel h = Some hl" and "aiRiskLevel v = Some al"
    and "hl \<in> set LEVELS" and "al \<in> set LEVELS"
  shows "\<exists>n. riskScore (mergeAnalysisResults h a) = Num n
           \<and> (of_int n :: rat) \<le> of_int x * (4 / 10) + of_int y * (6 / 10) + 1 / 2
           \<and> of_int x * (4 / 10) + of_int y * (6 / 10) + 1 / 2 < (of_int n :: rat) + 1
           \<and> 0 \<le> n \<and> n \<le> 100
           \<and> riskLevel (mergeAnalysisResults h a) = Some (more_severe hl al)"
proof (intro exI conjI)
  show "riskScore (mergeAnalysisResults h a) = Num ((4 * x + 6 * y + 5) div 10)"
    using assms(1,2,3,6) by (rule merged_score)
  show "(of_int ((4 * x + 6 * y + 5) div 10) :: rat) \<le> of_int x * (4 / 10) + of_int y * (6 / 10) + 1 / 2"
    by (rule weighted_nearest)
  show "of_int x * (4 / 10) + of_int y * (6 / 10) + 1 / 2 < (of_int ((4 * x + 6 * y + 5) div 10) :: rat) + 1"
    by (rule weighted_nearest)
  show "0 \<le> (4 * x + 6 * y + 5) div 10" and "(4 * x + 6 * y + 5) div 10 \<le> 100"
    using assms(4,5,7,8) by (simp_all add: weighted_range)
  show "riskLevel (mergeAnalysisResults h a) = Some (more_severe hl al)"
    using assms(1,2,9,10,11,12) by (rule merged_level_more_severe)
qed

text \<open>
  The example of the specification: heuristic score 20 (safe) and AI score 90 (danger) fuse
  to score 62 and level danger, although the bucket of 62 is warning. With the heuristic
  score 22 the sum is 62.8 and the fused score 63: the sum is rounded, not cut off.
\<close>

theorem fusion_score_and_level_witness:
  "riskScore (mergeAnalysisResults example_heuristic example_ai) = Num 62
   \<and> riskLevel (mergeAnalysisResults example_heuristic example_ai) = Some (js ''danger'')
   \<and> determineRiskLevel 62 = js ''warning''
   \<and> riskScore (mergeAnalysisResults (example_heuristic\<lparr>riskScore := Num 22\<rparr>) example_ai) = Num 63"
proof -
  have level: "determineRiskLevel 62 = js ''warning''"
    by (simp add: determineRiskLevel_def RISK_THRESHOLDS_SAFE_def RISK_THRESHOLDS_WARNING_def)
  have nearest: "n = m" if "(of_int n :: rat) \<le> q" "q < of_int n + 1" "of_int m \<le> q" "q < of_int m + 1"
    for n m :: int and q :: rat
    using that by (metis floor_unique)
  from fusion_score_and_level [of example_ai example_verdict example_heuristic 20 90
      "js ''safe''" "js ''danger''"]
  obtain n where n: "riskScore (mergeAnalysisResults example_heuristic example_ai) = Num n"
    and n1: "(of_int n :: rat) \<le> of_int 20 * (4 / 10) + of_int 90 * (6 / 10) + 1 / 2"
    and n2: "of_int 20 * (4 / 10) + of_int 90 * (6 / 10) + 1 / 2 < (of_int n :: rat) + 1"
    and l: "riskLevel (mergeAnalysisResults example_heuristic example_ai)
              = Some (more_severe (js ''safe'') (js ''danger''))"
    by (auto simp: example_ai_def example_verdict_def example_heuristic_def LEVELS_def)
  from fusion_score_and_level [of example_ai example_verdict
      "example_heuristic\<lparr>riskScore := Num 22\<rparr>" 22 90 "js ''safe''" "js ''danger''"]
  obtain m where m: "riskScore (mergeAnalysisResults (example_heuristic\<lparr>riskScore := Num 22\<rparr>) example_ai)
              = Num m"
    and m1: "(of_int m :: rat) \<le> of_int 22 * (4 / 10) + of_int 90 * (6 / 10) + 1 / 2"
    and m2: "of_int 22 * (4 / 10) + of_int 90 * (6 / 10) + 1 / 2 < (of_int m :: rat) + 1"
    by (auto simp: example_ai_def example_verdict_def example_heuristic_def LEVELS_def)
  have "n = 62"
    by (rule nearest [OF n1 n2]) simp_all
  moreover have "m = 63"
    by (rule nearest [OF m1 m2]) simp_all
  moreover have "more_severe (js ''safe'') (js ''danger'') = js ''danger''"
    by (simp add: more_severe_def severity_rank_def js_def)
  ultimately show ?thesis
    using n m l level by simp
qed

text \<open>
  Level keys that name no member of \<open>Object.prototype\<close>: a key outside the closed set counts
  as severity 0, the fused level is in the closed set, and an AI level outside the closed
  set leaves the heuristic level as it is.
\<close>

lemma own_level_value:
  assumes "k \<notin> set Object_prototype"
  shows "or_zero (get_property riskLevels k)
           = Number (if k = js ''warning'' then 1 else if k = js ''danger'' then 2 else 0)"
  using assms by (simp add: get_property_def or_zero_def riskLevels_def js_def)

lemma fusion_level_without_inherited_keys:
  assumes "enabled a" and "analysis a = Some v"
    and "property_key (riskLevel h) \<notin> set Object_prototype"
    and "property_key (aiRiskLevel v) \<notin> set Object_prototype"
  shows "riskLevel (mergeAnalysisResults h a) \<in> Some ` set LEVELS"
    and "property_key (aiRiskLevel v) \<notin> set LEVELS \<Longrightarrow> riskLevel h = Some hl \<Longrightarrow> hl \<in> set LEVELS
         \<Longrightarrow> riskLevel (mergeAnalysisResults h a) = Some hl"
proof -
  let ?n = "\<lambda>k. if k = js ''warning'' then 1 else if k = js ''danger'' then 2 else (0::int)"
  have level: "riskLevel (mergeAnalysisResults h a)
      = find (\<lambda>k. strict_equal (get_property riskLevels k)
                 (Number (max (?n (property_key (riskLevel h))) (?n (property_key (aiRiskLevel v))))))
          (map fst riskLevels)"
    using assms by (simp add: merged_level own_level_value Math_max_def)
  then show "riskLevel (mergeAnalysisResults h a) \<in> Some ` set LEVELS"
    by (simp add: strict_equal_def get_property_def riskLevels_def LEVELS_def js_def max_def)
  show "riskLevel (mergeAnalysisResults h a) = Some hl"
    if "property_key (aiRiskLevel v) \<notin> set LEVELS" and "riskLevel h = Some hl" and "hl \<in> set LEVELS"
    using that level
    by (auto simp: strict_equal_def get_property_def riskLevels_def LEVELS_def js_def max_def
        property_key_def)
qed

text \<open>
  C9. A level string that names a member of \<open>Object.prototype\<close> is not mapped to severity 0:
  the lookup finds the inherited member, the maximum is \<open>NaN\<close>, and the fused level is
  \<open>undefined\<close>. Here the heuristic level is danger and the AI level is the string
  \<open>constructor\<close>.
\<close>

theorem fusion_level_inherited_key:
  "riskLevel (mergeAnalysisResults (example_heuristic\<lparr>riskLevel := Some (js ''danger'')\<rparr>)
      (example_ai\<lparr>analysis := Some (example_verdict\<lparr>aiRiskLevel := Some (js ''constructor'')\<rparr>)\<rparr>))
     = None"
  by (simp add: merged_level example_ai_def example_verdict_def example_heuristic_def
      property_key_def get_property_def riskLevels_def Object_prototype_def or_zero_def
      Math_max_def strict_equal_def js_def)

subsection \<open>Thresholds\<close>

lemma analyzeDomain_valid:
  assumes "isValidUrl URL target"
  shows "\<exists>d. analyzeDomain URL target = Inr d"
  using assms by (auto simp: isValidUrl_def analyzeDomain_def Let_def split: option.splits)

lemma quickCheck_valid:
  assumes "isValidUrl URL target" and "analyzeDomain URL target = Inr d"
  shows "quickCheck URL target =
     Inr \<lparr>quickUrl = target, valid = True, quickScore = score d,
          quickLevel = determineRiskLevel (score d), quickIssues = Some (issues d),
          message = (if length (issues d) > 0 then DomainIssuesFound else DomainCheckPassed)\<rparr>"
  using assms by (simp add: quickCheck_def)

lemma heuristicAnalysis_level:
  assumes "heuristicAnalysis URL target obs = Inr h"
  shows "\<exists>n. riskScore h = Num n \<and> riskLevel h = Some (determineRiskLevel n)"
  using assms
  by (auto simp: heuristicAnalysis_def Let_def split: if_splits option.splits sum.splits)

lemma example_heuristic_run:
  "map_sum id (\<lambda>h. (riskScore h, riskLevel h))
     (heuristicAnalysis example_URL (js ''https://example.com/'') example_observation)
   = Inr (Num 40, Some (js ''warning''))"
  by code_simp

lemma example_quick_run:
  "map_sum id (\<lambda>q. (quickScore q, quickLevel q))
     (quickCheck example_URL (js ''http://free-gift.tk:8080/''))
   = Inr (40, js ''warning'')"
  by code_simp

lemma example_valid:
  "isValidUrl example_URL (js ''http://free-gift.tk:8080/'')"
  "isValidUrl example_URL (js ''https://example.com/'')"
  "isValidUrl example_URL (js ''https://192.0.2.10/login'')"
  by code_simp+

text \<open>
  C3. A score up to 30 is safe, a score from 31 to 70 a warning, a score from 71 a danger;
  the three levels are distinct, so each score has one bucket. The level of the heuristic
  result of the full analysis and the level of a quick check of a valid URL are both
  \<open>determineRiskLevel\<close> of the score beside them.
\<close>

theorem determineRiskLevel_buckets:
  "(s \<le> 30 \<longrightarrow> determineRiskLevel s = js ''safe'')
   \<and> (31 \<le> s \<and> s \<le> 70 \<longrightarrow> determineRiskLevel s = js ''warning'')
   \<and> (71 \<le> s \<longrightarrow> determineRiskLevel s = js ''danger'')
   \<and> distinct [js ''safe'', js ''warning'', js ''danger'']
   \<and> (heuristicAnalysis URL target obs = Inr h
        \<longrightarrow> (\<exists>n. riskScore h = Num n \<and> riskLevel h = Some (determineRiskLevel n)))
   \<and> (isValidUrl URL target
        \<longrightarrow> (\<exists>q. quickCheck URL target = Inr q \<and> quickLevel q = determineRiskLevel (quickScore q)))"
proof (intro conjI)
  show "s \<le> 30 \<longrightarrow> determineRiskLevel s = js ''safe''"
    and "31 \<le> s \<and> s \<le> 70 \<longrightarrow> determineRiskLevel s = js ''warning''"
    and "71 \<le> s \<longrightarrow> determineRiskLevel s = js ''danger''"
    by (simp_all add: determineRiskLevel_def RISK_THRESHOLDS_SAFE_def RISK_THRESHOLDS_WARNING_def)
  show "distinct [js ''safe'', js ''warning'', js ''danger'']"
    by (simp add: js_def)
  show "heuristicAnalysis URL target obs = Inr h
        \<longrightarrow> (\<exists>n. riskScore h = Num n \<and> riskLevel h = Some (determineRiskLevel n))"
    using heuristicAnalysis_level by blast
  show "isValidUrl URL target
        \<longrightarrow> (\<exists>q. quickCheck URL target = Inr q \<and> quickLevel q = determineRiskLevel (quickScore q))"
  proof
    assume v: "isValidUrl URL target"
    then obtain d where "analyzeDomain URL target = Inr d"
      using analyzeDomain_valid by blast
    with v show "\<exists>q. quickCheck URL target = Inr q \<and> quickLevel q = determineRiskLevel (quickScore q)"
      by (simp add: quickCheck_valid)
  qed
qed

theorem determineRiskLevel_buckets_witness:
  "determineRiskLevel 25 = js ''safe'' \<and> determineRiskLevel 40 = js ''warning''
   \<and> determineRiskLevel 90 = js ''danger''
   \<and> (\<exists>h. heuristicAnalysis example_URL (js ''https://example.com/'') example_observation = Inr h
          \<and> riskScore h = Num 40 \<and> riskLevel h = Some (js ''warning''))
   \<and> (\<exists>q. quickCheck example_URL (js ''http://free-gift.tk:8080/'') = Inr q
          \<and> quickScore q = 40 \<and> quickLevel q = js ''warning'')"
proof -
  obtain h where h: "heuristicAnalysis example_URL (js ''https://example.com/'') example_observation = Inr h"
    and hs: "riskScore h = Num 40"
    using example_heuristic_run
    by (cases "heuristicAnalysis example_URL (js ''https://example.com/'') example_observation") auto
  obtain q where q: "quickCheck example_URL (js ''http://free-gift.tk:8080/'') = Inr q"
    and qs: "quickScore q = 40"
    using example_quick_run
    by (cases "quickCheck example_URL (js ''http://free-gift.tk:8080/'')") auto
  from determineRiskLevel_buckets [of 25 example_URL "js ''https://example.com/''" example_observation h]
       determineRiskLevel_buckets [of 40 example_URL "js ''http://free-gift.tk:8080/''" example_observation h]
       determineRiskLevel_buckets [of 90 example_URL "js ''https://example.com/''" example_observation h]
       h hs q qs example_valid(1)
  show ?thesis by auto
qed

subsection \<open>Analyses without the AI\<close>

lemma merge_not_taking_part:
  assumes "\<not> enabled a \<or> analysis a = None"
  shows "mergeAnalysisResults h a = h\<lparr>aiAnalysis := Some (StoredAiResult a)\<rparr>"
  using assms by (auto simp: mergeAnalysisResults_def)

lemma heuristicAnalysis_no_ai:
  assumes "heuristicAnalysis URL target obs = Inr h"
  shows "aiAnalysis h = None"
  using assms
  by (auto simp: heuristicAnalysis_def Let_def split: if_splits option.splits sum.splits)

lemma analyzeUrl_not_enabled:
  assumes "heuristicAnalysis URL target obs = Inr h"
    and "\<not> enabled (analyzeWithAI JSON_parse env)"
  shows "analyzeUrl URL JSON_parse target opts obs env = Inr h"
  using assms by (auto simp: analyzeUrl_def Let_def split: option.splits)

lemma example_heuristic_exists:
  "\<exists>h. heuristicAnalysis example_URL (js ''https://example.com/'') example_observation = Inr h"
  using example_heuristic_run
  by (cases "heuristicAnalysis example_URL (js ''https://example.com/'') example_observation") auto

lemma example_no_key_not_enabled:
  "\<not> enabled (analyzeWithAI example_JSON example_no_key)"
  by (simp add: analyzeWithAI_def example_no_key_def falsy_string_def)

text \<open>
  C2, as the claim states it, fails: with the default options and no API key the AI takes
  no part, and the result of \<open>analyzeUrl\<close> has no \<open>aiAnalysis\<close> property.
\<close>

theorem aiAnalysis_absent_counterexample:
  "map_sum id aiAnalysis
     (analyzeUrl example_URL example_JSON (js ''https://example.com/'') example_options
        example_observation example_no_key)
   = Inr None"
proof -
  obtain h where h: "heuristicAnalysis example_URL (js ''https://example.com/'') example_observation = Inr h"
    using example_heuristic_exists by blast
  then have "analyzeUrl example_URL example_JSON (js ''https://example.com/'') example_options
        example_observation example_no_key = Inr h"
    using example_no_key_not_enabled by (rule analyzeUrl_not_enabled)
  with heuristicAnalysis_no_ai [OF h] show ?thesis by simp
qed

text \<open>
  C2, amended. When the AI takes no part, \<open>analyzeUrl\<close> returns the heuristic result with the
  same score, level and every other property; \<open>aiAnalysis\<close> is added, holding the result of
  \<open>analyzeWithAI\<close>, only when that result is enabled but without a verdict, and is absent when
  the AI is switched off, the request cannot be put together or the result is not enabled.
  \<open>mergeAnalysisResults\<close> itself stores every result that is not enabled or has no verdict.
\<close>

theorem non_participation_verbatim:
  assumes "heuristicAnalysis URL target obs = Inr h"
    and "\<not> ai_took_part JSON_parse opts obs env"
  shows "(\<exists>r. analyzeUrl URL JSON_parse target opts obs env = Inr r
           \<and> riskScore r = riskScore h \<and> riskLevel r = riskLevel h
           \<and> r = h\<lparr>aiAnalysis := aiAnalysis r\<rparr>
           \<and> aiAnalysis r =
               (if useAI opts \<noteq> Some False \<and> pageInfoFailure obs = None
                   \<and> enabled (analyzeWithAI JSON_parse env)
                then Some (StoredAiResult (analyzeWithAI JSON_parse env)) else None))
       \<and> (\<not> enabled a \<or> analysis a = None
            \<longrightarrow> mergeAnalysisResults h a = h\<lparr>aiAnalysis := Some (StoredAiResult a)\<rparr>)"
proof (cases "useAI opts \<noteq> Some False \<and> pageInfoFailure obs = None
                \<and> enabled (analyzeWithAI JSON_parse env)")
  case True
  with assms(2) have "analysis (analyzeWithAI JSON_parse env) = None"
    by (simp add: ai_took_part_def)
  then have "mergeAnalysisResults h (analyzeWithAI JSON_parse env)
               = h\<lparr>aiAnalysis := Some (StoredAiResult (analyzeWithAI JSON_parse env))\<rparr>"
    by (simp add: merge_not_taking_part)
  with True assms(1) show ?thesis
    by (simp add: analyzeUrl_def Let_def merge_not_taking_part)
next
  case False
  with assms(1) have "analyzeUrl URL JSON_parse target opts obs env = Inr h"
    by (auto simp: analyzeUrl_def Let_def split: option.splits)
  with False heuristicAnalysis_no_ai [OF assms(1)] show ?thesis
    by (auto simp: merge_not_taking_part)
qed

text \<open>
  Two analyses of \<open>https://example.com/\<close> without the AI: no API key (no \<open>aiAnalysis\<close>), and
  a service that answers \<open>null\<close> (the enabled result without verdict is stored).
\<close>

theorem non_participation_verbatim_witness:
  "\<exists>h r r'. heuristicAnalysis example_URL (js ''https://example.com/'') example_observation = Inr h
     \<and> analyzeUrl example_URL example_JSON (js ''https://example.com/'') example_options
          example_observation example_no_key = Inr r
     \<and> riskScore r = riskScore h \<and> riskLevel r = riskLevel h \<and> aiAnalysis r = None
     \<and> analyzeUrl example_URL example_JSON (js ''https://example.com/'') example_options
          example_observation example_null_reply = Inr r'
     \<and> riskScore r' = riskScore h \<and> riskLevel r' = riskLevel h
     \<and> aiAnalysis r' = Some (StoredAiResult
          \<lparr>enabled = True, reason = None, failure = None, model = Some MODEL_NAME, analysis = None\<rparr>)
     \<and> mergeAnalysisResults h (analyzeWithAI example_JSON example_no_key)
          = h\<lparr>aiAnalysis := Some (StoredAiResult (analyzeWithAI example_JSON example_no_key))\<rparr>"
proof -
  obtain h where h: "heuristicAnalysis example_URL (js ''https://example.com/'') example_observation = Inr h"
    using example_heuristic_exists by blast
  have null: "analyzeWithAI example_JSON example_null_reply
      = \<lparr>enabled = True, reason = None, failure = None, model = Some MODEL_NAME, analysis = None\<rparr>"
    by (simp add: analyzeWithAI_def example_null_reply_def falsy_string_def parseAIResponse_def
        jsonStr_def fenced_json_def braced_json_def example_JSON_def js_def)
  have a: "\<not> ai_took_part example_JSON example_options example_observation example_no_key"
    using example_no_key_not_enabled by (simp add: ai_took_part_def)
  have b: "\<not> ai_took_part example_JSON example_options example_observation example_null_reply"
    by (simp add: ai_took_part_def null)
  have opts: "useAI example_options \<noteq> Some False" "pageInfoFailure example_observation = None"
    by (simp_all add: example_options_def example_observation_def)
  from non_participation_verbatim [OF h a, of "analyzeWithAI example_JSON example_no_key"]
       non_participation_verbatim [OF h b, of "analyzeWithAI example_JSON example_no_key"]
       h example_no_key_not_enabled null opts
  show ?thesis by auto
qed

subsection \<open>Domain analyzer\<close>

lemma has_run_consecutive: "has_run p n s = consecutive p n s"
proof
  show "has_run p n s \<Longrightarrow> consecutive p n s"
  proof (induction s)
    case Nil
    then show ?case by (simp add: consecutive_def)
  next
    case (Cons c cs)
    show ?case
    proof (cases "n \<le> length (takeWhile p (c # cs))")
      case True
      let ?w = "take n (takeWhile p (c # cs))"
      have "list_all p ?w"
        by (metis list_all_iff in_set_takeD set_takeWhileD)
      moreover have "length ?w = n" using True by simp
      moreover have "c # cs = [] @ ?w @ (drop n (takeWhile p (c # cs)) @ dropWhile p (c # cs))"
        by (metis append_Nil append_assoc append_take_drop_id takeWhile_dropWhile_id)
      ultimately show ?thesis unfolding consecutive_def by blast
    next
      case False
      with Cons.prems have "has_run p n cs" by simp
      then obtain u w v where "cs = u @ w @ v" "length w = n" "list_all p w"
        using Cons.IH unfolding consecutive_def by blast
      then have "c # cs = (c # u) @ w @ v" by simp
      then show ?thesis unfolding consecutive_def using \<open>length w = n\<close> \<open>list_all p w\<close> by blast
    qed
  qed
next
  assume "consecutive p n s"
  then obtain u w v where s: "s = u @ w @ v" and n: "length w = n" and w: "list_all p w"
    unfolding consecutive_def by blast
  have front: "has_run p n (w @ v)"
  proof (cases "w @ v")
    case Nil
    with n show ?thesis by simp
  next
    case (Cons c cs)
    have "takeWhile p (w @ v) = w @ takeWhile p v"
      using w by (simp add: list_all_iff takeWhile_append2)
    then have "n \<le> length (takeWhile p (w @ v))" using n by simp
    with Cons show ?thesis by simp
  qed
  have "has_run p n (u @ w @ v)"
    by (induction u) (use front in auto)
  with s show "has_run p n s" by simp
qed

lemma split_dot_nonempty: "split_dot s \<noteq> []"
  by (induction s) (auto split: list.splits)

lemma length_split_dot: "length (split_dot s) = label_count s"
  unfolding label_count_def
  by (induction s) (use split_dot_nonempty in \<open>auto split: list.splits\<close>)

lemma split_dot_field: "46 \<notin> set a \<Longrightarrow> split_dot (a @ 46 # r) = a # split_dot r"
  by (induction a) (auto split: list.splits)

lemma split_dot_last: "46 \<notin> set a \<Longrightarrow> split_dot a = [a]"
  by (induction a) (auto split: list.splits)

lemma split_dot_join:
  "split_dot s = g # gs \<Longrightarrow> s = g @ concat (map (\<lambda>q. 46 # q) gs)"
proof (induction s arbitrary: g gs)
  case Nil
  then show ?case by simp
next
  case (Cons c cs)
  obtain g' gs' where sp: "split_dot cs = g' # gs'"
    using split_dot_nonempty by (cases "split_dot cs") auto
  then have cs: "cs = g' @ concat (map (\<lambda>q. 46 # q) gs')"
    by (rule Cons.IH)
  show ?case
  proof (cases "c = 46")
    case True
    with Cons.prems sp have "g = []" and "gs = g' # gs'" by simp_all
    with True cs show ?thesis by simp
  next
    case False
    with Cons.prems sp have "g = c # g'" and "gs = gs'" by simp_all
    with cs show ?thesis by simp
  qed
qed

lemma digits_no_dot: "list_all is_digit g \<Longrightarrow> 46 \<notin> set g"
  by (auto simp: list_all_iff is_digit_def)

lemma ipv4_literal_dotted_quad: "ipv4_literal h = dotted_quad h"
proof
  assume "ipv4_literal h"
  then have len: "length (split_dot h) = 4"
    and all: "list_all (\<lambda>p. p \<noteq> [] \<and> list_all is_digit p) (split_dot h)"
    by (simp_all add: ipv4_literal_def)
  from len obtain a b c d where sp: "split_dot h = [a, b, c, d]"
    by (auto simp: length_Suc_conv numeral_eq_Suc)
  from split_dot_join [OF sp] have "h = a @ [46] @ b @ [46] @ c @ [46] @ d" by simp
  with all sp show "dotted_quad h" unfolding dotted_quad_def by auto
next
  assume "dotted_quad h"
  then obtain a b c d where h: "h = a @ [46] @ b @ [46] @ c @ [46] @ d"
    and g: "\<forall>g \<in> {a, b, c, d}. g \<noteq> [] \<and> list_all is_digit g"
    unfolding dotted_quad_def by blast
  from g have "46 \<notin> set a" "46 \<notin> set b" "46 \<notin> set c" "46 \<notin> set d"
    by (simp_all add: digits_no_dot)
  with h have "split_dot h = [a, b, c, d]"
    by (simp add: split_dot_field split_dot_last)
  with g show "ipv4_literal h" by (simp add: ipv4_literal_def)
qed

lemma suffix_ci_ending:
  "suffix_ci (46 # t) h \<longleftrightarrow> (\<exists>u w. h = u @ [46] @ w \<and> map canon w = map canon t)"
proof
  assume "suffix_ci (46 # t) h"
  then obtain zs where "map canon h = zs @ map canon (46 # t)"
    unfolding suffix_ci_def suffix_def by blast
  then obtain u x where h: "h = u @ x" and x: "map canon x = map canon (46 # t)"
    by (auto simp: map_eq_append_conv)
  from x obtain c w where xc: "x = c # w" and c: "canon c = canon 46"
    and w: "map canon w = map canon t"
    by (cases x) auto
  from c have "c = 46" by (simp add: canon_def split: if_splits)
  with h xc w show "\<exists>u w. h = u @ [46] @ w \<and> map canon w = map canon t"
    by auto
next
  assume "\<exists>u w. h = u @ [46] @ w \<and> map canon w = map canon t"
  then show "suffix_ci (46 # t) h"
    by (auto simp: suffix_ci_def suffix_def canon_def)
qed

lemma free_tld_ending_eq: "free_tld h = free_tld_ending h"
  by (simp add: free_tld_def free_tld_ending_def suffix_ci_ending)

lemma cyrillic_letter_eq: "cyrillic_letter h = has_cyrillic h"
proof -
  have "((1072 \<le> c \<and> c \<le> 1103) \<or> (1040 \<le> c \<and> c \<le> 1071)) = (1040 \<le> c \<and> c \<le> 1103)"
    for c :: nat by arith
  then show ?thesis
    by (simp add: cyrillic_letter_def has_cyrillic_def list_ex_iff)
qed

lemma first_match_any:
  "first_match ps text pts iss acc =
     (if list_ex (\<lambda>p. p text) ps then \<lparr>score = score acc + pts, issues = issues acc @ [iss]\<rparr> else acc)"
  by (induction ps) auto

lemma suspicious_patterns:
  "list_ex (\<lambda>p. p h) SUSPICIOUS_DOMAIN_PATTERNS = suspicious_host h"
  by (simp add: SUSPICIOUS_DOMAIN_PATTERNS_def suspicious_host_def long_digits_def
      double_hyphen_def has_run_consecutive free_tld_ending_eq cyrillic_letter_eq)

lemma analyzeDomain_score:
  assumes "URL target = Some p"
  shows "\<exists>d. analyzeDomain URL target = Inr d \<and> score d = min (domain_rule_points p) 40"
  using assms
  by (simp add: analyzeDomain_def Let_def first_match_any suspicious_patterns domain_rule_points_def
      ipv4_literal_dotted_quad length_split_dot js_def)

text \<open>
  C4. For a valid URL the score of the Domain Analyzer is the smaller of 40 and the sum of
  the points of the rules that apply: 25 for a bare IPv4 host, 15 once for a suspicious
  host (four digits in a row, two hyphens in a row, a free top-level domain in any case of
  letters, or a Cyrillic letter of the pattern's range \<open>U+0410\<close> to \<open>U+044F\<close>), 10 for more than
  three subdomains, 15 for a scheme other than https, 10 for a port other than 80 and 443.
  Where \<open>https://192.0.2.10/login\<close> parses to the host \<open>192.0.2.10\<close> without port, its
  score is 25 and its level safe.
\<close>

theorem domain_score_rules:
  "(isValidUrl URL target \<longrightarrow>
      (\<exists>p d. URL target = Some p \<and> analyzeDomain URL target = Inr d
         \<and> score d = min (domain_rule_points p) 40))
   \<and> (URL (js ''https://192.0.2.10/login'')
         = Some \<lparr>protocol = js ''https:'', hostname = js ''192.0.2.10'', port = []\<rparr> \<longrightarrow>
      (\<exists>d. analyzeDomain URL (js ''https://192.0.2.10/login'') = Inr d
         \<and> score d = 25 \<and> determineRiskLevel (score d) = js ''safe''))"
proof (intro conjI impI)
  assume "isValidUrl URL target"
  then obtain p where "URL target = Some p"
    by (auto simp: isValidUrl_def split: option.splits)
  then show "\<exists>p d. URL target = Some p \<and> analyzeDomain URL target = Inr d
         \<and> score d = min (domain_rule_points p) 40"
    using analyzeDomain_score by blast
next
  let ?p = "\<lparr>protocol = js ''https:'', hostname = js ''192.0.2.10'', port = []\<rparr>"
  assume "URL (js ''https://192.0.2.10/login'') = Some ?p"
  then obtain d where d: "analyzeDomain URL (js ''https://192.0.2.10/login'') = Inr d"
    and s: "score d = min (domain_rule_points ?p) 40"
    using analyzeDomain_score by blast
  have "ipv4_literal (js ''192.0.2.10'')" by code_simp
  moreover have "\<not> list_ex (\<lambda>p. p (js ''192.0.2.10'')) SUSPICIOUS_DOMAIN_PATTERNS" by code_simp
  moreover have "length (split_dot (js ''192.0.2.10'')) = 4" by code_simp
  ultimately have "domain_rule_points ?p = 25"
    by (simp add: domain_rule_points_def ipv4_literal_dotted_quad [symmetric]
        suspicious_patterns [symmetric] length_split_dot [symmetric])
  with d s show "\<exists>d. analyzeDomain URL (js ''https://192.0.2.10/login'') = Inr d
         \<and> score d = 25 \<and> determineRiskLevel (score d) = js ''safe''"
    by (simp add: determineRiskLevel_def RISK_THRESHOLDS_SAFE_def)
qed

lemma example_ip_parse:
  "example_URL (js ''https://192.0.2.10/login'')
     = Some \<lparr>protocol = js ''https:'', hostname = js ''192.0.2.10'', port = []\<rparr>"
  by (simp add: example_URL_def js_def)

lemma example_tk_parse:
  "example_URL (js ''http://free-gift.tk:8080/'')
     = Some \<lparr>protocol = js ''http:'', hostname = js ''free-gift.tk'', port = js ''8080''\<rparr>"
  by (simp add: example_URL_def js_def)

text \<open>
  A host under a free top-level domain, over http and on port 8080: 15 + 15 + 10 points.
\<close>

theorem domain_score_rules_witness:
  "(\<exists>d. analyzeDomain example_URL (js ''http://free-gift.tk:8080/'') = Inr d
        \<and> score d = 40
        \<and> domain_rule_points \<lparr>protocol = js ''http:'', hostname = js ''free-gift.tk'', port = js ''8080''\<rparr> = 40)
   \<and> (\<exists>d. analyzeDomain example_URL (js ''https://192.0.2.10/login'') = Inr d
        \<and> score d = 25 \<and> determineRiskLevel (score d) = js ''safe'')"
proof -
  have "free_tld (js ''free-gift.tk'')" by code_simp
  then have susp: "suspicious_host (js ''free-gift.tk'')"
    by (simp add: suspicious_host_def free_tld_ending_eq)
  have "\<not> ipv4_literal (js ''free-gift.tk'')" by code_simp
  moreover have "length (split_dot (js ''free-gift.tk'')) = 2" by code_simp
  ultimately have "domain_rule_points
      \<lparr>protocol = js ''http:'', hostname = js ''free-gift.tk'', port = js ''8080''\<rparr> = 40"
    using susp
    by (simp add: domain_rule_points_def ipv4_literal_dotted_quad [symmetric]
        length_split_dot [symmetric] js_def)
  with domain_score_rules [of example_URL "js ''http://free-gift.tk:8080/''"]
       example_valid(1) example_ip_parse example_tk_parse
  show ?thesis by auto
qed

subsection \<open>Caps and the aggregate score\<close>

lemma analyzeDomain_bounds:
  assumes "analyzeDomain URL target = Inr d"
  shows "0 \<le> score d \<and> score d \<le> 40"
proof -
  from assms obtain p where p: "URL target = Some p"
    by (auto simp: analyzeDomain_def split: option.splits)
  from analyzeDomain_score [of URL target p] p assms
  have "score d = min (domain_rule_points p) 40"
    by auto
  moreover have "0 \<le> domain_rule_points p"
    by (simp add: domain_rule_points_def)
  ultimately show ?thesis by simp
qed

lemma analyzeContent_bounds:
  "0 \<le> score (analyzeContent pg) \<and> score (analyzeContent pg) \<le> 50"
  by (auto simp: analyzeContent_def Let_def content_caught_def first_match_any split: sum.splits)

lemma analyzeNetworkRequests_bounds:
  "0 \<le> score (analyzeNetworkRequests URL reqs) \<and> score (analyzeNetworkRequests URL reqs) \<le> 20"
  by (simp add: analyzeNetworkRequests_def Let_def)

lemma navigationOutcome_bounds:
  "0 \<le> score (navigationOutcome e) \<and> score (navigationOutcome e) \<le> 10"
  by (simp add: navigationOutcome_def split: option.splits)

lemma heuristicAnalysis_details:
  assumes "heuristicAnalysis URL target obs = Inr h"
  shows "analyzeDomain URL target = Inr (domain (details h))
       \<and> content (details h) = analyzeContent (page obs)
       \<and> network (details h) = analyzeNetworkRequests URL (networkRequests obs)
       \<and> navigation (details h) = navigationOutcome (navigationError obs)
       \<and> riskScore h = Num (min (score (domain (details h)) + score (content (details h))
                                  + score (network (details h)) + score (navigation (details h))) 100)"
  using assms
  by (auto simp: heuristicAnalysis_def Let_def split: if_splits option.splits sum.splits)

lemma heuristicAnalysis_returns:
  assumes "isValidUrl URL target" and "browserFailure obs = None"
  shows "\<exists>h. heuristicAnalysis URL target obs = Inr h"
proof -
  from assms(1) obtain d where "analyzeDomain URL target = Inr d"
    using analyzeDomain_valid by blast
  with assms show ?thesis
    by (simp add: heuristicAnalysis_def Let_def)
qed

text \<open>
  C5. The score of the Domain Analyzer lies between 0 and 40, of the Content Analyzer
  between 0 and 50, of the Network Analyzer between 0 and 20, of the navigation outcome
  between 0 and 10. The full analysis of a valid URL, when the browser does not fail,
  returns a heuristic result; its details are the outputs of the four analyzers and its
  score is the smaller of their sum and 100, so it lies between 0 and 100.
\<close>

theorem analyzer_caps:
  "(analyzeDomain URL target = Inr d \<longrightarrow> 0 \<le> score d \<and> score d \<le> 40)
   \<and> 0 \<le> score (analyzeContent pg) \<and> score (analyzeContent pg) \<le> 50
   \<and> 0 \<le> score (analyzeNetworkRequests URL reqs) \<and> score (analyzeNetworkRequests URL reqs) \<le> 20
   \<and> 0 \<le> score (navigationOutcome e) \<and> score (navigationOutcome e) \<le> 10
   \<and> (isValidUrl URL target \<and> browserFailure obs = None
        \<longrightarrow> (\<exists>h. heuristicAnalysis URL target obs = Inr h))
   \<and> (heuristicAnalysis URL target obs = Inr h \<longrightarrow>
        analyzeDomain URL target = Inr (domain (details h))
        \<and> content (details h) = analyzeContent (page obs)
        \<and> network (details h) = analyzeNetworkRequests URL (networkRequests obs)
        \<and> navigation (details h) = navigationOutcome (navigationError obs)
        \<and> (\<exists>n. riskScore h = Num n
               \<and> n = min (score (domain (details h)) + score (content (details h))
                           + score (network (details h)) + score (navigation (details h))) 100
               \<and> 0 \<le> n \<and> n \<le> 100))"
proof -
  have "\<exists>n. riskScore h = Num n
               \<and> n = min (score (domain (details h)) + score (content (details h))
                           + score (network (details h)) + score (navigation (details h))) 100
               \<and> 0 \<le> n \<and> n \<le> 100" if h: "heuristicAnalysis URL target obs = Inr h"
  proof -
    from heuristicAnalysis_details [OF h]
    have d: "analyzeDomain URL target = Inr (domain (details h))"
      and c: "content (details h) = analyzeContent (page obs)"
      and n: "network (details h) = analyzeNetworkRequests URL (networkRequests obs)"
      and v: "navigation (details h) = navigationOutcome (navigationError obs)"
      and r: "riskScore h = Num (min (score (domain (details h)) + score (content (details h))
                             + score (network (details h)) + score (navigation (details h))) 100)"
      by simp_all
    from analyzeDomain_bounds [OF d] analyzeContent_bounds [of "page obs"]
      analyzeNetworkRequests_bounds [of URL "networkRequests obs"]
      navigationOutcome_bounds [of "navigationError obs"] c n v r
    show ?thesis by simp
  qed
  then show ?thesis
    using analyzeDomain_bounds analyzeContent_bounds analyzeNetworkRequests_bounds
      navigationOutcome_bounds heuristicAnalysis_details heuristicAnalysis_returns
    by blast
qed


lemma example_capped_domain:
  "analyzeDomain example_URL (js ''http://192.0.2.10:8080/'')
     = Inr \<lparr>score = 40, issues = [DirectIpAccess, HttpsNotUsed, NonStandardPort (js ''8080'')]\<rparr>"
  by code_simp

lemma example_heuristic_scores:
  "map_sum id (\<lambda>h. (riskScore h, score (domain (details h)), score (content (details h)),
                     score (network (details h)), score (navigation (details h))))
     (heuristicAnalysis example_URL (js ''https://example.com/'') example_observation)
   = Inr (Num 40, 0, 30, 10, 0)"
  by code_simp

text \<open>
  An IPv4 host over http on port 8080 has 50 points and the score 40; the analysis of the
  example page adds 0, 30, 10 and 0 to 40.
\<close>

theorem analyzer_caps_witness:
  "(\<exists>d. analyzeDomain example_URL (js ''http://192.0.2.10:8080/'') = Inr d
        \<and> 0 \<le> score d \<and> score d \<le> 40
        \<and> domain_rule_points \<lparr>protocol = js ''http:'', hostname = js ''192.0.2.10'', port = js ''8080''\<rparr> = 50)
   \<and> (\<exists>h. heuristicAnalysis example_URL (js ''https://example.com/'') example_observation = Inr h
        \<and> score (content (details h)) = 30 \<and> score (network (details h)) = 10
        \<and> riskScore h = Num 40
        \<and> analyzeDomain example_URL (js ''https://example.com/'') = Inr (domain (details h)))"
proof -
  have "ipv4_literal (js ''192.0.2.10'')" by code_simp
  moreover have "\<not> list_ex (\<lambda>p. p (js ''192.0.2.10'')) SUSPICIOUS_DOMAIN_PATTERNS" by code_simp
  moreover have "length (split_dot (js ''192.0.2.10'')) = 4" by code_simp
  ultimately have points: "domain_rule_points
      \<lparr>protocol = js ''http:'', hostname = js ''192.0.2.10'', port = js ''8080''\<rparr> = 50"
    by (simp add: domain_rule_points_def ipv4_literal_dotted_quad [symmetric]
        suspicious_patterns [symmetric] length_split_dot [symmetric] js_def)
  obtain h where h: "heuristicAnalysis example_URL (js ''https://example.com/'') example_observation = Inr h"
    using example_heuristic_exists by blast
  with example_heuristic_scores
  have scores: "riskScore h = Num 40" "score (content (details h)) = 30" "score (network (details h)) = 10"
    by simp_all
  from analyzer_caps [of example_URL "js ''http://192.0.2.10:8080/''"
      "\<lparr>score = 40, issues = [DirectIpAccess, HttpsNotUsed, NonStandardPort (js ''8080'')]\<rparr>"]
    analyzer_caps [of example_URL "js ''https://example.com/''" _ _ _ _ example_observation h]
    example_capped_domain points h scores
  show ?thesis by auto
qed

subsection \<open>Network analyzer\<close>

lemma collect_requests_skip:
  "collect_requests URL reqs st
     = collect_requests URL (filter (\<lambda>r. URL (requestUrl r) \<noteq> None) reqs) st"
  by (induction reqs arbitrary: st) (auto split: option.splits)

lemma collect_requests_hosts:
  "set (fst (collect_requests URL reqs st))
     = set (fst st) \<union> {hostname u | u r. r \<in> set reqs \<and> URL (requestUrl r) = Some u}"
  by (induction reqs arbitrary: st) (auto simp: set_add_def split: option.splits)

lemma collect_requests_distinct:
  "distinct (fst st) \<Longrightarrow> distinct (fst (collect_requests URL reqs st))"
  by (induction reqs arbitrary: st) (auto simp: set_add_def split: option.splits)

lemma collect_requests_scripts:
  "snd (collect_requests URL reqs st)
     = snd st @ concat (map (\<lambda>r. case URL (requestUrl r) of
                                   None \<Rightarrow> []
                                 | Some u \<Rightarrow> if resourceType r = js ''script'' \<and> hostname u \<noteq> originalDomain r
                                            then [hostname u] else []) reqs)"
  by (induction reqs arbitrary: st) (auto split: option.splits)

lemma analyzeNetworkRequests_same_state:
  assumes "collect_requests URL rs ([], []) = collect_requests URL rs' ([], [])"
  shows "analyzeNetworkRequests URL rs
     = (analyzeNetworkRequests URL rs')\<lparr>requestCount := length rs\<rparr>"
  using assms by (simp add: analyzeNetworkRequests_def Let_def)

text \<open>
  C10. The Network Analyzer gives, for any list of request records, the result it gives for
  the list without the records whose URL does not parse, except that \<open>requestCount\<close> counts
  every record: a record that does not parse, put anywhere in a list, changes neither the
  score, the issues (with the number of suspicious scripts) nor the external domains, and
  raises the count by one. The external domains are the hosts of the records that parse,
  each once.
\<close>

theorem unparsable_requests_skipped:
  "analyzeNetworkRequests URL reqs
     = (analyzeNetworkRequests URL (filter (parses URL) reqs))\<lparr>requestCount := length reqs\<rparr>
   \<and> (\<not> parses URL bad \<longrightarrow>
        analyzeNetworkRequests URL (before @ bad # after)
          = (analyzeNetworkRequests URL (before @ after))\<lparr>requestCount := Suc (length (before @ after))\<rparr>)
   \<and> set (externalDomains (analyzeNetworkRequests URL reqs))
        = {hostname u | u r. r \<in> set reqs \<and> URL (requestUrl r) = Some u}
   \<and> distinct (externalDomains (analyzeNetworkRequests URL reqs))"
proof -
  have skip: "collect_requests URL rs ([], []) = collect_requests URL (filter (parses URL) rs) ([], [])"
    for rs
    unfolding parses_def by (rule collect_requests_skip)
  have first: "analyzeNetworkRequests URL rs
     = (analyzeNetworkRequests URL (filter (parses URL) rs))\<lparr>requestCount := length rs\<rparr>" for rs
    by (rule analyzeNetworkRequests_same_state) (rule skip)
  have second: "analyzeNetworkRequests URL (before @ bad # after)
          = (analyzeNetworkRequests URL (before @ after))\<lparr>requestCount := Suc (length (before @ after))\<rparr>"
    if "\<not> parses URL bad"
  proof -
    have "filter (parses URL) (before @ bad # after) = filter (parses URL) (before @ after)"
      using that by simp
    then show ?thesis
      using first [of "before @ bad # after"] first [of "before @ after"] by simp
  qed
  have third: "set (externalDomains (analyzeNetworkRequests URL reqs))
        = {hostname u | u r. r \<in> set reqs \<and> URL (requestUrl r) = Some u}"
    by (simp add: analyzeNetworkRequests_def Let_def collect_requests_hosts)
  have fourth: "distinct (externalDomains (analyzeNetworkRequests URL reqs))"
    by (simp add: analyzeNetworkRequests_def Let_def collect_requests_distinct)
  from first second third fourth show ?thesis by blast
qed

text \<open>
  The three example requests: the second, a script, has a URL without scheme. It is counted
  among the three requests and nowhere else.
\<close>

theorem unparsable_requests_skipped_witness:
  "\<not> parses example_URL (example_requests ! 1)
   \<and> analyzeNetworkRequests example_URL example_requests
       = \<lparr>score = 10, issues = [ExternalScriptLoad 1],
          externalDomains = [js ''example.com'', js ''cdn.example.net''], requestCount = 3\<rparr>
   \<and> analyzeNetworkRequests example_URL [example_requests ! 0, example_requests ! 2]
       = \<lparr>score = 10, issues = [ExternalScriptLoad 1],
          externalDomains = [js ''example.com'', js ''cdn.example.net''], requestCount = 2\<rparr>"
proof -
  have bad: "\<not> parses example_URL (example_requests ! 1)"
    by (simp add: parses_def example_requests_def example_URL_def js_def)
  have two: "analyzeNetworkRequests example_URL [example_requests ! 0, example_requests ! 2]
       = \<lparr>score = 10, issues = [ExternalScriptLoad 1],
          externalDomains = [js ''example.com'', js ''cdn.example.net''], requestCount = 2\<rparr>"
    by code_simp
  have split: "example_requests = [example_requests ! 0] @ example_requests ! 1 # [example_requests ! 2]"
    by (simp add: example_requests_def)
  from unparsable_requests_skipped [of example_URL example_requests "example_requests ! 1"
      "[example_requests ! 0]" "[example_requests ! 2]"] bad
  have "analyzeNetworkRequests example_URL
          ([example_requests ! 0] @ example_requests ! 1 # [example_requests ! 2])
        = (analyzeNetworkRequests example_URL ([example_requests ! 0] @ [example_requests ! 2]))
            \<lparr>requestCount := Suc (length ([example_requests ! 0] @ [example_requests ! 2]))\<rparr>"
    by blast
  with split two bad show ?thesis by simp
qed

subsection \<open>Quick check\<close>

text \<open>
  C6. For a valid URL the quick check returns a result whose score is the score of the
  Domain Analyzer for that URL and whose level is \<open>determineRiskLevel\<close> of that score; the
  domain component of every full analysis of the same URL is that same output of the Domain
  Analyzer.
\<close>

theorem quickCheck_matches_domain:
  assumes "isValidUrl URL target"
  shows "\<exists>q d. quickCheck URL target = Inr q \<and> analyzeDomain URL target = Inr d
           \<and> valid q \<and> quickScore q = score d \<and> quickLevel q = determineRiskLevel (score d)
           \<and> (\<forall>obs h. heuristicAnalysis URL target obs = Inr h \<longrightarrow>
                  domain (details h) = d
                  \<and> quickScore q = score (domain (details h))
                  \<and> quickLevel q = determineRiskLevel (score (domain (details h))))"
proof -
  from assms obtain d where d: "analyzeDomain URL target = Inr d"
    using analyzeDomain_valid by blast
  let ?q = "\<lparr>quickUrl = target, valid = True, quickScore = score d,
          quickLevel = determineRiskLevel (score d), quickIssues = Some (issues d),
          message = (if length (issues d) > 0 then DomainIssuesFound else DomainCheckPassed)\<rparr>"
  have q: "quickCheck URL target = Inr ?q"
    using assms d by (rule quickCheck_valid)
  have "domain (details h) = d" if "heuristicAnalysis URL target obs = Inr h" for obs h
    using heuristicAnalysis_details [OF that] d by simp
  with q d show ?thesis by auto
qed

theorem quickCheck_matches_domain_witness:
  "\<exists>q h. quickCheck example_URL (js ''http://free-gift.tk:8080/'') = Inr q
      \<and> heuristicAnalysis example_URL (js ''http://free-gift.tk:8080/'') example_observation = Inr h
      \<and> quickScore q = 40 \<and> score (domain (details h)) = 40
      \<and> quickLevel q = js ''warning''
      \<and> determineRiskLevel (score (domain (details h))) = js ''warning''"
proof -
  have "browserFailure example_observation = None"
    by (simp add: example_observation_def)
  with example_valid(1) obtain h
    where h: "heuristicAnalysis example_URL (js ''http://free-gift.tk:8080/'') example_observation = Inr h"
    using heuristicAnalysis_returns by blast
  from quickCheck_matches_domain [OF example_valid(1)] obtain q d
    where q: "quickCheck example_URL (js ''http://free-gift.tk:8080/'') = Inr q"
      and s: "quickScore q = score d" "quickLevel q = determineRiskLevel (score d)"
      and f: "\<forall>obs h. heuristicAnalysis example_URL (js ''http://free-gift.tk:8080/'') obs = Inr h \<longrightarrow>
                  domain (details h) = d
                  \<and> quickScore q = score (domain (details h))
                  \<and> quickLevel q = determineRiskLevel (score (domain (details h)))"
    by blast
  from example_quick_run q have "quickScore q = 40" "quickLevel q = js ''warning''"
    by simp_all
  with q h f show ?thesis by metis
qed

subsection \<open>Batch check\<close>

lemma quickCheck_total:
  "\<exists>q. quickCheck URL target = Inr q \<and> quickUrl q = target \<and> valid q = isValidUrl URL target
       \<and> (if isValidUrl URL target then quickLevel q \<in> set LEVELS else quickLevel q = js ''unknown'')"
proof (cases "isValidUrl URL target")
  case True
  then obtain d where d: "analyzeDomain URL target = Inr d"
    using analyzeDomain_valid by blast
  have "determineRiskLevel (score d) \<in> set LEVELS"
    by (simp add: determineRiskLevel_def LEVELS_def)
  with True quickCheck_valid [OF True d] show ?thesis by simp
next
  case False
  then show ?thesis by (simp add: quickCheck_def)
qed

lemma quickCheck_projr: "quickCheck URL target = Inr (projr (quickCheck URL target))"
  using quickCheck_total [of URL target] by auto

lemma map_throwing_total:
  assumes "\<And>x. f x = Inr (g x)"
  shows "map_throwing f xs = Inr (map g xs)"
  by (induction xs) (simp_all add: assms)

lemma batch_results:
  "map_throwing (quickCheck URL) urls = Inr (map (\<lambda>u. projr (quickCheck URL u)) urls)"
  by (rule map_throwing_total) (rule quickCheck_projr)

lemma quick_result_facts:
  "quickUrl (projr (quickCheck URL u)) = u"
  "valid (projr (quickCheck URL u)) = isValidUrl URL u"
  "isValidUrl URL u \<Longrightarrow> quickLevel (projr (quickCheck URL u)) \<in> set LEVELS"
  "\<not> isValidUrl URL u \<Longrightarrow> quickLevel (projr (quickCheck URL u)) = js ''unknown''"
  using quickCheck_total [of URL u] by (auto split: if_splits)

lemma level_partition:
  assumes "\<And>x. x \<in> set xs \<Longrightarrow> (\<not> ok x \<and> lv x = js ''unknown'') \<or> (ok x \<and> lv x \<in> set LEVELS)"
  shows "length (filter (\<lambda>x. lv x = js ''safe'') xs) + length (filter (\<lambda>x. lv x = js ''warning'') xs)
       + length (filter (\<lambda>x. lv x = js ''danger'') xs) + length (filter (\<lambda>x. \<not> ok x) xs) = length xs"
  using assms
proof (induction xs)
  case Nil
  then show ?case by simp
next
  case (Cons x xs)
  then have IH: "length (filter (\<lambda>x. lv x = js ''safe'') xs) + length (filter (\<lambda>x. lv x = js ''warning'') xs)
       + length (filter (\<lambda>x. lv x = js ''danger'') xs) + length (filter (\<lambda>x. \<not> ok x) xs) = length xs"
    by simp
  from Cons.prems [of x] have "(\<not> ok x \<and> lv x = js ''unknown'') \<or> (ok x \<and> lv x \<in> set LEVELS)"
    by simp
  then show ?case
    using IH by (auto simp: LEVELS_def js_def)
qed


lemma batchCheck_value:
  "batchCheck URL urls =
     Inr \<lparr>total = length urls,
          results = map (\<lambda>u. projr (quickCheck URL u)) urls,
          batchSummary =
            \<lparr>safe = length (filter (\<lambda>r. quickLevel r = js ''safe'') (map (\<lambda>u. projr (quickCheck URL u)) urls)),
             warning = length (filter (\<lambda>r. quickLevel r = js ''warning'') (map (\<lambda>u. projr (quickCheck URL u)) urls)),
             danger = length (filter (\<lambda>r. quickLevel r = js ''danger'') (map (\<lambda>u. projr (quickCheck URL u)) urls)),
             invalid = length (filter (\<lambda>r. \<not> valid r) (map (\<lambda>u. projr (quickCheck URL u)) urls))\<rparr>\<rparr>"
  by (simp add: batchCheck_def batch_results)

lemma invalid_result:
  assumes "\<not> isValidUrl URL bad"
  shows "projr (quickCheck URL bad) =
     \<lparr>quickUrl = bad, valid = False, quickScore = 0, quickLevel = js ''unknown'',
      quickIssues = None, message = InvalidUrlMessage\<rparr>"
  using assms by (simp add: quickCheck_def)

text \<open>
  C7. The batch check of any list of URLs ends without error. It returns one quick-check
  result for each URL, in the order of the list; \<open>total\<close> is the length of the list; the
  summary counts the results of each level and, as invalid, the URLs that fail validation,
  and the four counts add up to \<open>total\<close>. The route answers with that data whenever the list
  has at most 10 URLs. A URL that fails validation, put anywhere in a list, adds its own
  invalid result at its place and one to the invalid count, and changes nothing else.
\<close>

theorem batch_check_results:
  "\<exists>d. batchCheck URL urls = Inr d
     \<and> total d = length urls
     \<and> length (results d) = length urls
     \<and> (\<forall>i < length urls. quickCheck URL (urls ! i) = Inr (results d ! i))
     \<and> map quickUrl (results d) = urls
     \<and> safe (batchSummary d) = length (filter (\<lambda>r. quickLevel r = js ''safe'') (results d))
     \<and> warning (batchSummary d) = length (filter (\<lambda>r. quickLevel r = js ''warning'') (results d))
     \<and> danger (batchSummary d) = length (filter (\<lambda>r. quickLevel r = js ''danger'') (results d))
     \<and> invalid (batchSummary d) = length (filter (\<lambda>u. \<not> isValidUrl URL u) urls)
     \<and> safe (batchSummary d) + warning (batchSummary d) + danger (batchSummary d)
         + invalid (batchSummary d) = total d
     \<and> (length urls \<le> 10 \<longrightarrow> post_batch_check URL (Some urls) = Inr d)
     \<and> (\<forall>before bad after. urls = before @ bad # after \<and> \<not> isValidUrl URL bad \<longrightarrow>
          (\<exists>d'. batchCheck URL (before @ after) = Inr d'
             \<and> results d = take (length before) (results d')
                  @ \<lparr>quickUrl = bad, valid = False, quickScore = 0, quickLevel = js ''unknown'',
                     quickIssues = None, message = InvalidUrlMessage\<rparr>
                  # drop (length before) (results d')
             \<and> batchSummary d = (batchSummary d')\<lparr>invalid := Suc (invalid (batchSummary d'))\<rparr>))"
proof -
  let ?q = "\<lambda>u. projr (quickCheck URL u)"
  let ?s = "\<lambda>us. \<lparr>safe = length (filter (\<lambda>r. quickLevel r = js ''safe'') (map ?q us)),
             warning = length (filter (\<lambda>r. quickLevel r = js ''warning'') (map ?q us)),
             danger = length (filter (\<lambda>r. quickLevel r = js ''danger'') (map ?q us)),
             invalid = length (filter (\<lambda>r. \<not> valid r) (map ?q us))\<rparr>"
  let ?d = "\<lambda>us. \<lparr>total = length us, results = map ?q us, batchSummary = ?s us\<rparr>"
  have d: "batchCheck URL us = Inr (?d us)" for us
    by (rule batchCheck_value)
  have each: "\<forall>i < length urls. quickCheck URL (urls ! i) = Inr (results (?d urls) ! i)"
    using quickCheck_projr by simp
  have urls: "map quickUrl (results (?d urls)) = urls"
    by (simp add: quick_result_facts(1) comp_def)
  have inv: "invalid (batchSummary (?d urls)) = length (filter (\<lambda>u. \<not> isValidUrl URL u) urls)"
    by (simp add: filter_map comp_def quick_result_facts(2))
  have "length (filter (\<lambda>x. quickLevel x = js ''safe'') (map ?q urls))
       + length (filter (\<lambda>x. quickLevel x = js ''warning'') (map ?q urls))
       + length (filter (\<lambda>x. quickLevel x = js ''danger'') (map ?q urls))
       + length (filter (\<lambda>x. \<not> valid x) (map ?q urls)) = length (map ?q urls)"
  proof (rule level_partition)
    fix x assume "x \<in> set (map ?q urls)"
    then obtain u where "x = ?q u" by auto
    then show "(\<not> valid x \<and> quickLevel x = js ''unknown'') \<or> (valid x \<and> quickLevel x \<in> set LEVELS)"
      using quick_result_facts [of URL u] by (cases "isValidUrl URL u") simp_all
  qed
  then have sum: "safe (batchSummary (?d urls)) + warning (batchSummary (?d urls))
         + danger (batchSummary (?d urls)) + invalid (batchSummary (?d urls)) = total (?d urls)"
    by simp
  have route: "length urls \<le> 10 \<longrightarrow> post_batch_check URL (Some urls) = Inr (?d urls)"
    by (simp add: post_batch_check_def d)
  have one: "\<exists>d'. batchCheck URL (before @ after) = Inr d'
             \<and> results (?d urls) = take (length before) (results d')
                  @ \<lparr>quickUrl = bad, valid = False, quickScore = 0, quickLevel = js ''unknown'',
                     quickIssues = None, message = InvalidUrlMessage\<rparr>
                  # drop (length before) (results d')
             \<and> batchSummary (?d urls) = (batchSummary d')\<lparr>invalid := Suc (invalid (batchSummary d'))\<rparr>"
    if "urls = before @ bad # after" and "\<not> isValidUrl URL bad" for before bad after
  proof (intro exI conjI)
    show "batchCheck URL (before @ after) = Inr (?d (before @ after))" by (rule d)
    show "results (?d urls) = take (length before) (results (?d (before @ after)))
                  @ \<lparr>quickUrl = bad, valid = False, quickScore = 0, quickLevel = js ''unknown'',
                     quickIssues = None, message = InvalidUrlMessage\<rparr>
                  # drop (length before) (results (?d (before @ after)))"
      using that by (simp add: invalid_result)
    show "batchSummary (?d urls)
        = (batchSummary (?d (before @ after)))\<lparr>invalid := Suc (invalid (batchSummary (?d (before @ after))))\<rparr>"
      using that by (simp add: invalid_result js_def)
  qed
  have all: "\<forall>before bad after. urls = before @ bad # after \<and> \<not> isValidUrl URL bad \<longrightarrow>
          (\<exists>d'. batchCheck URL (before @ after) = Inr d'
             \<and> results (?d urls) = take (length before) (results d')
                  @ \<lparr>quickUrl = bad, valid = False, quickScore = 0, quickLevel = js ''unknown'',
                     quickIssues = None, message = InvalidUrlMessage\<rparr>
                  # drop (length before) (results d')
             \<and> batchSummary (?d urls) = (batchSummary d')\<lparr>invalid := Suc (invalid (batchSummary d'))\<rparr>)"
    using one by blast
  show ?thesis
  proof (rule exI [of _ "?d urls"], intro conjI)
    show "batchCheck URL urls = Inr (?d urls)" by (rule d)
    show "total (?d urls) = length urls" by simp
    show "length (results (?d urls)) = length urls" by simp
    show "\<forall>i < length urls. quickCheck URL (urls ! i) = Inr (results (?d urls) ! i)" by (rule each)
    show "map quickUrl (results (?d urls)) = urls" by (rule urls)
    show "safe (batchSummary (?d urls))
        = length (filter (\<lambda>r. quickLevel r = js ''safe'') (results (?d urls)))" by simp
    show "warning (batchSummary (?d urls))
        = length (filter (\<lambda>r. quickLevel r = js ''warning'') (results (?d urls)))" by simp
    show "danger (batchSummary (?d urls))
        = length (filter (\<lambda>r. quickLevel r = js ''danger'') (results (?d urls)))" by simp
    show "invalid (batchSummary (?d urls)) = length (filter (\<lambda>u. \<not> isValidUrl URL u) urls)"
      by (rule inv)
    show "safe (batchSummary (?d urls)) + warning (batchSummary (?d urls))
         + danger (batchSummary (?d urls)) + invalid (batchSummary (?d urls)) = total (?d urls)"
      by (rule sum)
    show "length urls \<le> 10 \<longrightarrow> post_batch_check URL (Some urls) = Inr (?d urls)" by (rule route)
    show "\<forall>before bad after. urls = before @ bad # after \<and> \<not> isValidUrl URL bad \<longrightarrow>
          (\<exists>d'. batchCheck URL (before @ after) = Inr d'
             \<and> results (?d urls) = take (length before) (results d')
                  @ \<lparr>quickUrl = bad, valid = False, quickScore = 0, quickLevel = js ''unknown'',
                     quickIssues = None, message = InvalidUrlMessage\<rparr>
                  # drop (length before) (results d')
             \<and> batchSummary (?d urls) = (batchSummary d')\<lparr>invalid := Suc (invalid (batchSummary d'))\<rparr>)"
      by (rule all)
  qed
qed


lemma example_batch_invalid:
  "filter (\<lambda>u. \<not> isValidUrl example_URL u) example_batch = [js ''not a url'']"
  by code_simp

text \<open>
  The batch of three URLs with one that is no URL: total 3, invalid 1, the other two counted
  under their levels, the results in the order of the input.
\<close>

theorem batch_check_results_witness:
  "\<exists>d. post_batch_check example_URL (Some example_batch) = Inr d
     \<and> total d = 3
     \<and> map quickUrl (results d) = example_batch
     \<and> invalid (batchSummary d) = 1
     \<and> safe (batchSummary d) + warning (batchSummary d) + danger (batchSummary d) = 2
     \<and> results d ! 1 = \<lparr>quickUrl = js ''not a url'', valid = False, quickScore = 0,
                          quickLevel = js ''unknown'', quickIssues = None, message = InvalidUrlMessage\<rparr>"
proof -
  have len: "length example_batch = 3"
    by (simp add: example_batch_def)
  have split: "example_batch = [js ''https://192.0.2.10/login''] @ js ''not a url''
                 # [js ''http://free-gift.tk:8080/'']"
    by (simp add: example_batch_def)
  have bad: "\<not> isValidUrl example_URL (js ''not a url'')"
    by code_simp
  from batch_check_results [of example_URL example_batch] obtain d
    where d: "batchCheck example_URL example_batch = Inr d"
      and t: "total d = length example_batch"
      and u: "map quickUrl (results d) = example_batch"
      and i: "invalid (batchSummary d) = length (filter (\<lambda>u. \<not> isValidUrl example_URL u) example_batch)"
      and s: "safe (batchSummary d) + warning (batchSummary d) + danger (batchSummary d)
               + invalid (batchSummary d) = total d"
      and r: "length example_batch \<le> 10 \<longrightarrow> post_batch_check example_URL (Some example_batch) = Inr d"
      and o: "\<forall>before bad after. example_batch = before @ bad # after \<and> \<not> isValidUrl example_URL bad \<longrightarrow>
          (\<exists>d'. batchCheck example_URL (before @ after) = Inr d'
             \<and> results d = take (length before) (results d')
                  @ \<lparr>quickUrl = bad, valid = False, quickScore = 0, quickLevel = js ''unknown'',
                     quickIssues = None, message = InvalidUrlMessage\<rparr>
                  # drop (length before) (results d')
             \<and> batchSummary d = (batchSummary d')\<lparr>invalid := Suc (invalid (batchSummary d'))\<rparr>)"
    by blast
  from o split bad obtain d'
    where d': "batchCheck example_URL ([js ''https://192.0.2.10/login''] @ [js ''http://free-gift.tk:8080/'']) = Inr d'"
      and res: "results d = take (length [js ''https://192.0.2.10/login'']) (results d')
                  @ \<lparr>quickUrl = js ''not a url'', valid = False, quickScore = 0, quickLevel = js ''unknown'',
                     quickIssues = None, message = InvalidUrlMessage\<rparr>
                  # drop (length [js ''https://192.0.2.10/login'']) (results d')"
    by blast
  from batch_check_results [of example_URL "[js ''https://192.0.2.10/login''] @ [js ''http://free-gift.tk:8080/'']"] d'
  have "length (results d') = 2" by auto
  with res have second: "results d ! 1 = \<lparr>quickUrl = js ''not a url'', valid = False, quickScore = 0,
                          quickLevel = js ''unknown'', quickIssues = None, message = InvalidUrlMessage\<rparr>"
    by (simp add: nth_append)
  from r len have "post_batch_check example_URL (Some example_batch) = Inr d" by simp
  moreover from t len have "total d = 3" by simp
  moreover from i example_batch_invalid have "invalid (batchSummary d) = 1" by simp
  ultimately show ?thesis using u s second by auto
qed

subsection \<open>Unparsable AI responses\<close>









end
